theory Spec2Isabelle
  imports Complex_Main "HOL-Library.AList" "HOL-Library.Multiset" "HOL-Library.Log_Nat"
begin

section \<open>Common modelling conventions\<close>

text \<open>
  The classifiers of \<^verbatim>\<open>mdp/nodes/classifier_nodes.py\<close> are embedded one class at a
  time. An object is a record of its attributes; a method takes the record and returns
  the updated record. A Python exception is a value of \<open>error\<close>. Python integers are
  \<open>int\<close>. Python and numpy floating point numbers are modelled as exact reals, except
  where the rounding decides the property: there a Python float is an IEEE 754 double
  (section \<open>Python floats\<close>).

  A Python \<^verbatim>\<open>dict\<close> is an association list with pairwise different keys:
  \<open>map_of\<close> looks a key up, \<open>AList.update\<close> stores a value (in place when the key
  is present, as a new last entry otherwise), and a \<^verbatim>\<open>for\<close> loop over the dict
  visits the keys in list order. Python 2 fixes no iteration order for a dict; the list
  order stands for whichever order the interpreter uses.
\<close>

datatype error =
    TrainingException
  | KeyError
  | ZeroDivisionError
  | IndexError
  | ValueError
  | TypeError
  | AttributeError
  | LinAlgError
  | OverflowError

text \<open>
  The \<^verbatim>\<open>labels\<close> argument of a training call: a single label, or a list, tuple or
  array of labels (the two cases \<^verbatim>\<open>isinstance(labels, (list, tuple, numx.ndarray))\<close>
  tells apart).
\<close>

datatype 'l labels_arg = Single 'l | Many "'l list"

text \<open>
  Modelled from the spec: \<^verbatim>\<open>mdp.utils.izip_stretched\<close>, which is not in the source
  file. The spec describes it as pairing the batch rows with the labels, a single label
  being broadcast over all rows, and a shorter sequence being stretched to the length of
  the longer one by repeating its last element. An empty sequence has no last element to
  repeat and is left empty, so that the pairing is then empty.
\<close>

definition stretch :: "nat \<Rightarrow> 'a list \<Rightarrow> 'a list" where
  "stretch n xs = (if xs = [] then [] else xs @ replicate (n - length xs) (last xs))"

fun izip_stretched :: "'a list \<Rightarrow> 'l labels_arg \<Rightarrow> ('a \<times> 'l) list" where
  "izip_stretched x (Single l) = map (\<lambda>xi. (xi, l)) x"
| "izip_stretched x (Many ls) =
     zip (stretch (length ls) x) (stretch (length x) ls)"

text \<open>
  A call that writes to the object returns the exception it raised, if any, together
  with the state it leaves behind: \<open>(None, s')\<close> is a normal return, \<open>(Some e, s')\<close> the
  exception \<open>e\<close> with the object in state \<open>s'\<close>.
\<close>

type_synonym 's outcome = "error option \<times> 's"

text \<open>A list comprehension whose body may raise: the first exception ends it.\<close>

fun mapE :: "('a \<Rightarrow> error + 'b) \<Rightarrow> 'a list \<Rightarrow> error + 'b list" where
  "mapE f [] = Inr []"
| "mapE f (a # as) =
     (case f a of
        Inl e \<Rightarrow> Inl e
      | Inr b \<Rightarrow> (case mapE f as of Inl e \<Rightarrow> Inl e | Inr bs \<Rightarrow> Inr (b # bs)))"

text \<open>
  Two numpy vectors combine elementwise when they have the same length; a vector of
  length one is broadcast against the other. Any other pair of lengths raises
  \<^verbatim>\<open>ValueError\<close>.
\<close>

definition np_broadcast2 ::
  "(real \<Rightarrow> real \<Rightarrow> real) \<Rightarrow> real list \<Rightarrow> real list \<Rightarrow> error + real list" where
  "np_broadcast2 f xs ys =
     (if length xs = length ys then Inr (map2 f xs ys)
      else if length ys = 1 then Inr (map (\<lambda>a. f a (ys ! 0)) xs)
      else if length xs = 1 then Inr (map (\<lambda>b. f (xs ! 0) b) ys)
      else Inl ValueError)"


section \<open>Python floats\<close>

text \<open>
  A Python float is an IEEE 754 double. A finite double is the rational number it
  denotes, \<open>m * 2\<^sup>e\<close> with \<open>\<bar>m\<bar> < 2\<^bsup>53\<^esup>\<close> and \<open>- 1074 \<le> e\<close>, below \<open>2\<^bsup>1024\<^esup>\<close> in
  absolute value; the other doubles are the two infinities and nan. The two zeros of
  IEEE 754 are one value here: Python raises on a division by either of them, so no
  operation below tells them apart.
\<close>

datatype double = Finite rat | PInf | NInf | NaN

text \<open>\<open>2\<^sup>e\<close> for an integer \<open>e\<close>, and \<open>\<lfloor>log\<^sub>2 q\<rfloor>\<close> for a positive rational \<open>q\<close>.\<close>

definition pow2 :: "int \<Rightarrow> rat" where
  "pow2 e = (if 0 \<le> e then 2 ^ nat e else 1 / 2 ^ nat (- e))"

definition ilog2 :: "rat \<Rightarrow> int" where
  "ilog2 q =
     (let (a, b) = quotient_of q;
          d = bitlen a - bitlen b
      in if pow2 d \<le> q then d else d - 1)"

text \<open>The nearest integer, the even one of the two when both are equally near.\<close>

definition round_half_even :: "rat \<Rightarrow> int" where
  "round_half_even q =
     (let f = \<lfloor>q\<rfloor>; d = q - of_int f
      in if d < 1 / 2 then f else if 1 / 2 < d then f + 1 else if even f then f else f + 1)"

text \<open>
  Rounding to nearest, ties to even, the rounding of every arithmetic operation on
  doubles: the exact result \<open>q\<close> is scaled so that its significand has 53 bits (fewer
  below \<open>2\<^bsup>-1022\<^esup>\<close>, where the exponent stays \<open>- 1074\<close>) and rounded to an integer. A
  result that reaches \<open>2\<^bsup>1024\<^esup>\<close> in absolute value after rounding, that is
  \<open>1024 \<le> \<lfloor>log\<^sub>2 \<bar>r\<bar>\<rfloor>\<close>, is the infinity of its sign (\<open>signed_inf\<close>).
\<close>

definition signed_inf :: "rat \<Rightarrow> double" where
  "signed_inf s = (if 0 < s then PInf else NInf)"

definition double_round :: "rat \<Rightarrow> rat" where
  "double_round q =
     (if q = 0 then 0
      else let e = max (ilog2 \<bar>q\<bar> - 52) (- 1074)
           in of_int (round_half_even (q / pow2 e)) * pow2 e)"

definition double_result :: "rat \<Rightarrow> double" where
  "double_result q =
     (let r = double_round q
      in if r \<noteq> 0 \<and> 1024 \<le> ilog2 \<bar>r\<bar> then signed_inf r else Finite r)"

text \<open>
  The conversion of a Python integer to a float, which \<^verbatim>\<open>1.0 * n\<close> and
  \<^verbatim>\<open>x / n\<close> apply to an integer operand: correctly rounded, \<^verbatim>\<open>OverflowError\<close> when
  the integer is too large for a double.
\<close>

definition double_of_int :: "int \<Rightarrow> error + double" where
  "double_of_int n =
     (case double_result (of_int n) of
        Finite r \<Rightarrow> Inr (Finite r)
      | _ \<Rightarrow> Inl OverflowError)"

text \<open>The sign of a double that is not nan.\<close>

fun double_sign :: "double \<Rightarrow> rat" where
  "double_sign (Finite a) = sgn a"
| "double_sign PInf = 1"
| "double_sign NInf = - 1"
| "double_sign NaN = 0"

text \<open>
  \<^verbatim>\<open>a * b\<close> on floats: the rounded product; nan from a nan operand and from an
  infinity times zero; otherwise an infinity.
\<close>

fun double_mul :: "double \<Rightarrow> double \<Rightarrow> double" where
  "double_mul (Finite a) (Finite b) = double_result (a * b)"
| "double_mul NaN b = NaN"
| "double_mul a NaN = NaN"
| "double_mul a b =
     (if double_sign a * double_sign b = 0 then NaN
      else signed_inf (double_sign a * double_sign b))"

text \<open>
  \<^verbatim>\<open>a / b\<close> on floats: Python raises \<^verbatim>\<open>ZeroDivisionError\<close> when \<open>b\<close> is zero,
  whatever \<open>a\<close> is. Otherwise the rounded quotient; nan from a nan operand and from an
  infinity over an infinity; zero from a finite number over an infinity; an infinity
  from an infinity over a finite number.
\<close>

fun double_div :: "double \<Rightarrow> double \<Rightarrow> error + double" where
  "double_div a (Finite b) =
     (if b = 0 then Inl ZeroDivisionError
      else case a of
             Finite u \<Rightarrow> Inr (double_result (u / b))
           | NaN \<Rightarrow> Inr NaN
           | _ \<Rightarrow> Inr (signed_inf (double_sign a * sgn b)))"
| "double_div a NaN = Inr NaN"
| "double_div (Finite u) b = Inr (Finite 0)"
| "double_div a b = Inr NaN"

text \<open>
  \<^verbatim>\<open>a + b\<close> on floats, and the builtin \<^verbatim>\<open>sum\<close> of a sequence of floats, which adds
  them from left to right, starting from \<open>0\<close>.
\<close>

fun double_add :: "double \<Rightarrow> double \<Rightarrow> double" where
  "double_add (Finite a) (Finite b) = double_result (a + b)"
| "double_add NaN b = NaN"
| "double_add a NaN = NaN"
| "double_add (Finite a) b = b"
| "double_add a (Finite b) = a"
| "double_add a b = (if a = b then a else NaN)"

definition double_sum :: "double list \<Rightarrow> double" where
  "double_sum xs = foldl double_add (Finite 0) xs"
section \<open>SimpleMarkovClassifier\<close>

text \<open>
  The attributes set by \<^verbatim>\<open>__init__\<close>: the number of observations and the three
  count dictionaries. A feature is the tuple of a row, a list of values.
\<close>

record ('f, 'l) markov =
  ntotal_connections :: int
  features :: "('f list \<times> int) list"
  labels :: "('l \<times> int) list"
  connections :: "(('f list \<times> 'l) \<times> int) list"

definition markov_init :: "('f, 'l) markov" where
  "markov_init = \<lparr>ntotal_connections = 0, features = [], labels = [], connections = []\<rparr>"

text \<open>\<^verbatim>\<open>if k in d: d[k] += 1 else: d[k] = 1\<close>, the counting step of \<^verbatim>\<open>_learn\<close>.\<close>

definition count_up :: "'k \<Rightarrow> ('k \<times> int) list \<Rightarrow> ('k \<times> int) list" where
  "count_up k d =
     (case map_of d k of
        Some c \<Rightarrow> AList.update k (c + 1) d
      | None \<Rightarrow> AList.update k 1 d)"

definition markov_learn :: "'f list \<Rightarrow> 'l \<Rightarrow> ('f, 'l) markov \<Rightarrow> ('f, 'l) markov" where
  "markov_learn feature label s =
     s\<lparr>ntotal_connections := ntotal_connections s + 1,
       labels := count_up label (labels s),
       features := count_up feature (features s),
       connections := count_up (feature, label) (connections s)\<rparr>"

text \<open>\<^verbatim>\<open>_train\<close>: one \<^verbatim>\<open>_learn\<close> for each pair, in the order of the pairing.\<close>

fun markov_learn_all :: "('f list \<times> 'l) list \<Rightarrow> ('f, 'l) markov \<Rightarrow> ('f, 'l) markov" where
  "markov_learn_all [] s = s"
| "markov_learn_all ((xi, labeli) # rest) s = markov_learn_all rest (markov_learn xi labeli s)"

definition markov_train_raw ::
  "'f list list \<Rightarrow> 'l labels_arg \<Rightarrow> ('f, 'l) markov \<Rightarrow> ('f, 'l) markov" where
  "markov_train_raw x lbls s = markov_learn_all (izip_stretched x lbls) s"

text \<open>
  The body of the loop of \<^verbatim>\<open>_prob_one\<close> for one label, in exact arithmetic. The three
  divisions are divisions of Python floats, which raise \<^verbatim>\<open>ZeroDivisionError\<close> on a
  zero divisor.
\<close>

definition markov_prob_label ::
  "('f, 'l) markov \<Rightarrow> 'f list \<Rightarrow> int \<Rightarrow> 'l \<Rightarrow> error + real" where
  "markov_prob_label s feature n_feature_connections label =
     (let n_conn = (case map_of (connections s) (feature, label) of
                      Some n \<Rightarrow> n | None \<Rightarrow> 0);
          n_label_connections = (case map_of (labels s) label of
                      Some n \<Rightarrow> n | None \<Rightarrow> 0)
      in if n_label_connections = 0 then Inl ZeroDivisionError
         else if ntotal_connections s = 0 then Inl ZeroDivisionError
         else
           let p_feature_given_label = 1 * real_of_int n_conn / real_of_int n_label_connections;
               p_label = 1 * real_of_int n_label_connections / real_of_int (ntotal_connections s);
               p_feature = 1 * real_of_int n_feature_connections / real_of_int (ntotal_connections s)
           in if p_feature = 0 then Inl ZeroDivisionError
              else Inr (1 * p_feature_given_label * p_label / p_feature))"

fun markov_prob_loop ::
  "('f, 'l) markov \<Rightarrow> 'f list \<Rightarrow> int \<Rightarrow> 'l list \<Rightarrow> ('l \<times> real) list \<Rightarrow> error + ('l \<times> real) list" where
  "markov_prob_loop s feature nf [] probabilities = Inr probabilities"
| "markov_prob_loop s feature nf (label # rest) probabilities =
     (case markov_prob_label s feature nf label of
        Inl e \<Rightarrow> Inl e
      | Inr prob \<Rightarrow> markov_prob_loop s feature nf rest (AList.update label prob probabilities))"

text \<open>
  \<^verbatim>\<open>_prob_one\<close> reads the object and writes nothing to it, so it is a function of the
  state alone; the state after the call is the state before it.
\<close>

definition markov_prob_one :: "('f, 'l) markov \<Rightarrow> 'f list \<Rightarrow> error + ('l \<times> real) list" where
  "markov_prob_one s feature =
     (case map_of (features s) feature of
        None \<Rightarrow> Inr []
      | Some n_feature_connections \<Rightarrow>
          markov_prob_loop s feature n_feature_connections (map fst (labels s)) [])"

text \<open>
  The same three functions on doubles, with every conversion, multiplication and
  division of the loop body in the order in which Python evaluates it:
  \<^verbatim>\<open>1.0 * n / d\<close> is \<^verbatim>\<open>(1.0 * n) / d\<close> with both integers converted, and
  \<^verbatim>\<open>1.0 * a * b / c\<close> is \<^verbatim>\<open>((1.0 * a) * b) / c\<close>.
\<close>

definition double_quot :: "int \<Rightarrow> int \<Rightarrow> error + double" where
  "double_quot n d =
     (case double_of_int n of
        Inl e \<Rightarrow> Inl e
      | Inr fn \<Rightarrow>
          (case double_of_int d of
             Inl e \<Rightarrow> Inl e
           | Inr fd \<Rightarrow> double_div (double_mul (Finite 1) fn) fd))"

definition markov_prob_label_double ::
  "('f, 'l) markov \<Rightarrow> 'f list \<Rightarrow> int \<Rightarrow> 'l \<Rightarrow> error + double" where
  "markov_prob_label_double s feature n_feature_connections label =
     (let n_conn = (case map_of (connections s) (feature, label) of
                      Some n \<Rightarrow> n | None \<Rightarrow> 0);
          n_label_connections = (case map_of (labels s) label of
                      Some n \<Rightarrow> n | None \<Rightarrow> 0)
      in case double_quot n_conn n_label_connections of
           Inl e \<Rightarrow> Inl e
         | Inr p_feature_given_label \<Rightarrow>
             (case double_quot n_label_connections (ntotal_connections s) of
                Inl e \<Rightarrow> Inl e
              | Inr p_label \<Rightarrow>
                  (case double_quot n_feature_connections (ntotal_connections s) of
                     Inl e \<Rightarrow> Inl e
                   | Inr p_feature \<Rightarrow>
                       double_div (double_mul (double_mul (Finite 1) p_feature_given_label) p_label)
                         p_feature)))"

fun markov_prob_loop_double ::
  "('f, 'l) markov \<Rightarrow> 'f list \<Rightarrow> int \<Rightarrow> 'l list \<Rightarrow> ('l \<times> double) list \<Rightarrow>
   error + ('l \<times> double) list" where
  "markov_prob_loop_double s feature nf [] probabilities = Inr probabilities"
| "markov_prob_loop_double s feature nf (label # rest) probabilities =
     (case markov_prob_label_double s feature nf label of
        Inl e \<Rightarrow> Inl e
      | Inr prob \<Rightarrow>
          markov_prob_loop_double s feature nf rest (AList.update label prob probabilities))"

definition markov_prob_one_double ::
  "('f, 'l) markov \<Rightarrow> 'f list \<Rightarrow> error + ('l \<times> double) list" where
  "markov_prob_one_double s feature =
     (case map_of (features s) feature of
        None \<Rightarrow> Inr []
      | Some n_feature_connections \<Rightarrow>
          markov_prob_loop_double s feature n_feature_connections (map fst (labels s)) [])"

text \<open>The states a classifier can be in: those reached from \<^verbatim>\<open>__init__\<close> by learning.\<close>

definition markov_after :: "('f list \<times> 'l) list \<Rightarrow> ('f, 'l) markov" where
  "markov_after history = markov_learn_all history markov_init"


subsection \<open>Auxiliary notions for the properties of the Markov classifier\<close>

text \<open>The joint and the feature count with \<open>0\<close> for an absent key.\<close>

definition conn0 :: "('f, 'l) markov \<Rightarrow> 'f list \<Rightarrow> 'l \<Rightarrow> int" where
  "conn0 s f l = (case map_of (connections s) (f, l) of Some n \<Rightarrow> n | None \<Rightarrow> 0)"

definition feat0 :: "('f, 'l) markov \<Rightarrow> 'f list \<Rightarrow> int" where
  "feat0 s f = (case map_of (features s) f of Some n \<Rightarrow> n | None \<Rightarrow> 0)"

text \<open>
  What every sequence of \<^verbatim>\<open>_learn\<close> calls maintains: the counts are positive, no
  feature count exceeds the number of observations, and the count of a feature is the
  sum of its joint counts over the labels.
\<close>

definition markov_inv :: "('f, 'l) markov \<Rightarrow> bool" where
  "markov_inv s \<longleftrightarrow>
     distinct (map fst (labels s)) \<and>
     0 \<le> ntotal_connections s \<and>
     (\<forall>l c. map_of (labels s) l = Some c \<longrightarrow> 0 < c) \<and>
     (\<forall>f c. map_of (features s) f = Some c \<longrightarrow> 0 < c \<and> c \<le> ntotal_connections s) \<and>
     (\<forall>f. feat0 s f = (\<Sum>l\<leftarrow>map fst (labels s). conn0 s f l)) \<and>
     (\<forall>f l. l \<notin> fst ` set (labels s) \<longrightarrow> conn0 s f l = 0)"

text \<open>The value \<^verbatim>\<open>_prob_one\<close> stores for a label, as the three quotients of the loop body.\<close>

definition bayes :: "('f, 'l) markov \<Rightarrow> 'f list \<Rightarrow> int \<Rightarrow> 'l \<Rightarrow> real" where
  "bayes s f nf l =
     (real_of_int (conn0 s f l) / real_of_int (the (map_of (labels s) l)))
     * (real_of_int (the (map_of (labels s) l)) / real_of_int (ntotal_connections s))
     / (real_of_int nf / real_of_int (ntotal_connections s))"

text \<open>Training histories used to evaluate the model on concrete data.\<close>

definition markov_example :: "(int list \<times> string) list" where
  "markov_example = [([0], ''a''), ([1], ''b''), ([0], ''b''), ([0], ''a'')]"

definition markov_rounding_example :: "(int list \<times> string) list" where
  "markov_rounding_example =
     [([0], ''a''), ([0], ''a''), ([0], ''a''), ([0], ''b''), ([1], ''b'')]"
section \<open>PerceptronClassifier\<close>

text \<open>
  The attributes of a perceptron. \<^verbatim>\<open>input_dim\<close> belongs to the node base class; it is
  fixed by the time the training step runs.
\<close>

record perceptron =
  weights :: "real list"
  offset_weight :: real
  learning_rate :: real
  perceptron_input_dim :: nat

definition perceptron_init :: "nat \<Rightarrow> perceptron" where
  "perceptron_init n =
     \<lparr>weights = [], offset_weight = 0, learning_rate = 1 / 10, perceptron_input_dim = n\<rparr>"

text \<open>
  \<^verbatim>\<open>_check_train_args\<close>: the length test applies to a sequence of labels only; a single
  label is wrapped in a list before the test of the values.
\<close>

definition perceptron_check_train_args :: "real list list \<Rightarrow> real labels_arg \<Rightarrow> error option" where
  "perceptron_check_train_args x lbls =
     (if (case lbls of Many ls \<Rightarrow> length ls \<noteq> length x | Single l \<Rightarrow> False)
      then Some TrainingException
      else
        let ls = (case lbls of Many ls \<Rightarrow> ls | Single l \<Rightarrow> [l])
        in if \<not> list_all (\<lambda>x. \<bar>x\<bar> = 1) ls then Some TrainingException else None)"

text \<open>\<^verbatim>\<open>numx.dot\<close> of two vectors; numpy raises \<^verbatim>\<open>ValueError\<close> when the lengths differ.\<close>

definition dot :: "real list \<Rightarrow> real list \<Rightarrow> real" where
  "dot xs ys = (\<Sum>(a, b)\<leftarrow>zip xs ys. a * b)"

definition np_dot :: "real list \<Rightarrow> real list \<Rightarrow> error + real" where
  "np_dot xs ys = (if length xs = length ys then Inr (dot xs ys) else Inl ValueError)"

text \<open>\<^verbatim>\<open>_label\<close> on one row. \<^verbatim>\<open>numx.sign\<close> is \<open>sgn\<close>, with \<open>sgn 0 = 0\<close>.\<close>

definition perceptron_label_one :: "perceptron \<Rightarrow> real list \<Rightarrow> error + real" where
  "perceptron_label_one s x =
     (case np_dot x (weights s) of
        Inl e \<Rightarrow> Inl e
      | Inr d \<Rightarrow> Inr (sgn (d + offset_weight s)))"

text \<open>
  The loop over \<^verbatim>\<open>j\<close> in \<^verbatim>\<open>_train\<close>. After \<^verbatim>\<open>new_weights = self.weights\<close> both names
  denote one array, so \<^verbatim>\<open>new_weights[j] = self.weights[j] + rate * xi[j]\<close> writes into
  the array it reads: the model has one list \<open>w\<close> for it and updates it at \<open>j\<close>. An
  index outside the array or the row raises \<^verbatim>\<open>IndexError\<close>, the writes made so far
  staying in place.
\<close>

fun update_weights :: "real \<Rightarrow> real list \<Rightarrow> nat list \<Rightarrow> real list \<Rightarrow> real list outcome" where
  "update_weights rate xi [] w = (None, w)"
| "update_weights rate xi (j # js) w =
     (if j < length w \<and> j < length xi
      then update_weights rate xi js (w[j := w ! j + rate * xi ! j])
      else (Some IndexError, w))"

text \<open>The body of the loop over the pairs of a row and its label.\<close>

definition perceptron_train_one :: "perceptron \<Rightarrow> real list \<times> real \<Rightarrow> perceptron outcome" where
  "perceptron_train_one s p =
     (case p of (xi, labeli) \<Rightarrow>
        (case perceptron_label_one s xi of
           Inl e \<Rightarrow> (Some e, s)
         | Inr prediction \<Rightarrow>
             let rate = learning_rate s * (labeli - prediction)
             in (case update_weights rate xi [0..<perceptron_input_dim s] (weights s) of
                   (Some e, new_weights) \<Rightarrow> (Some e, s\<lparr>weights := new_weights\<rparr>)
                 | (None, new_weights) \<Rightarrow>
                     (None, s\<lparr>weights := new_weights,
                              offset_weight := offset_weight s + rate * 1\<rparr>))))"

fun perceptron_train_loop :: "perceptron \<Rightarrow> (real list \<times> real) list \<Rightarrow> perceptron outcome" where
  "perceptron_train_loop s [] = (None, s)"
| "perceptron_train_loop s (p # ps) =
     (case perceptron_train_one s p of
        (Some e, s') \<Rightarrow> (Some e, s')
      | (None, s') \<Rightarrow> perceptron_train_loop s' ps)"

text \<open>\<^verbatim>\<open>_train\<close>: the weights become all ones when \<^verbatim>\<open>len(self.weights)\<close> is zero.\<close>

definition perceptron_train_raw ::
  "perceptron \<Rightarrow> real list list \<Rightarrow> real labels_arg \<Rightarrow> perceptron outcome" where
  "perceptron_train_raw s x lbls =
     (let s0 = (if length (weights s) = 0
                then s\<lparr>weights := replicate (perceptron_input_dim s) 1\<rparr> else s)
      in perceptron_train_loop s0 (izip_stretched x lbls))"

subsection \<open>The update as the specification words it\<close>

text \<open>
  The pairs of a batch in row order: a single label goes with every row, a sequence of
  labels with the rows position by position.
\<close>

definition pairs_in_row_order :: "'a list \<Rightarrow> 'l labels_arg \<Rightarrow> ('a \<times> 'l) list" where
  "pairs_in_row_order x lbls =
     (case lbls of Single l \<Rightarrow> map (\<lambda>row. (row, l)) x | Many ls \<Rightarrow> zip x ls)"

text \<open>
  One update: the prediction is the sign of the weighted sum plus the bias, the rate is
  the learning rate times the difference of label and prediction, every weight grows by
  the rate times its coordinate of the row, and the bias grows by the rate. All of it
  reads the weights from before the update.
\<close>

definition perceptron_update_spec :: "perceptron \<Rightarrow> real list \<times> real \<Rightarrow> perceptron" where
  "perceptron_update_spec s p =
     (case p of (row, label) \<Rightarrow>
        let prediction = sgn (dot (weights s) row + offset_weight s);
            rate = learning_rate s * (label - prediction)
        in s\<lparr>weights := map (\<lambda>j. weights s ! j + rate * row ! j) [0..<perceptron_input_dim s],
             offset_weight := offset_weight s + rate\<rparr>)"

definition perceptron_train_spec ::
  "perceptron \<Rightarrow> real list list \<Rightarrow> real labels_arg \<Rightarrow> perceptron" where
  "perceptron_train_spec s x lbls =
     foldl perceptron_update_spec
       (if weights s = [] then s\<lparr>weights := replicate (perceptron_input_dim s) 1\<rparr> else s)
       (pairs_in_row_order x lbls)"

text \<open>A fresh perceptron with one input and a batch of two rows, for concrete evaluation.\<close>

definition perceptron_example_rows :: "real list list" where
  "perceptron_example_rows = [[30], [1]]"

section \<open>DiscreteHopfieldClassifier\<close>

text \<open>
  Modelled from the spec: \<^verbatim>\<open>mdp.utils.bool_to_sign\<close> and \<^verbatim>\<open>mdp.utils.sign_to_bool\<close>,
  which are not in the source file. The spec has the first map the booleans false and
  true to the bipolar values \<open>-1\<close> and \<open>+1\<close>, and the second map a bipolar pattern back
  to booleans.
\<close>

definition bool_to_sign :: "bool list \<Rightarrow> real list" where
  "bool_to_sign pattern = map (\<lambda>b. if b then 1 else - 1) pattern"

definition sign_to_bool :: "real list \<Rightarrow> bool list" where
  "sign_to_bool pattern = map (\<lambda>v. 0 < v) pattern"

text \<open>
  \<^verbatim>\<open>_weight_matrix\<close> is the integer \<^verbatim>\<open>0\<close> until the first pattern is added, and a
  matrix, given by its rows, from then on.
\<close>

datatype wmatrix = Zero | Matrix "real list list"

record hopfield =
  weight_matrix :: wmatrix
  num_patterns :: int
  shuffled_update :: bool
  hopfield_input_dim :: nat

definition hopfield_init :: "nat \<Rightarrow> hopfield" where
  "hopfield_init n =
     \<lparr>weight_matrix = Zero, num_patterns = 0, shuffled_update = True, hopfield_input_dim = n\<rparr>"

text \<open>
  \<^verbatim>\<open>self._weight_matrix += m\<close>: the integer \<^verbatim>\<open>0\<close> plus \<open>m\<close> is \<open>m\<close>; a matrix takes
  \<open>m\<close> in place when they have the same shape or \<open>m\<close> is one by one, and the addition
  raises \<^verbatim>\<open>ValueError\<close> otherwise.
\<close>

definition same_shape :: "real list list \<Rightarrow> real list list \<Rightarrow> bool" where
  "same_shape a m = (length a = length m \<and> list_all2 (\<lambda>r r'. length r = length r') a m)"

definition wmatrix_iadd :: "wmatrix \<Rightarrow> real list list \<Rightarrow> error + wmatrix" where
  "wmatrix_iadd w m =
     (case w of
        Zero \<Rightarrow> Inr (Matrix m)
      | Matrix a \<Rightarrow>
          if same_shape a m then Inr (Matrix (map2 (map2 (+)) a m))
          else if length m = 1 \<and> length (m ! 0) = 1
               then Inr (Matrix (map (map (\<lambda>v. v + m ! 0 ! 0)) a))
          else Inl ValueError)"

text \<open>
  \<^verbatim>\<open>_train_one\<close>. The division is by \<^verbatim>\<open>float(self.input_dim)\<close>; the patterns of a
  training batch have \<^verbatim>\<open>input_dim\<close> entries, so the divisor is zero only for patterns
  without entries, which leave nothing to divide.
\<close>

definition hopfield_train_one :: "hopfield \<Rightarrow> bool list \<Rightarrow> hopfield outcome" where
  "hopfield_train_one s pattern =
     (let pattern = bool_to_sign pattern;
          weights = map (\<lambda>a. map (\<lambda>b. a * b) pattern) pattern
      in (case wmatrix_iadd (weight_matrix s)
                 (map (map (\<lambda>v. v / real (hopfield_input_dim s))) weights) of
            Inl e \<Rightarrow> (Some e, s)
          | Inr w \<Rightarrow> (None, s\<lparr>weight_matrix := w, num_patterns := num_patterns s + 1\<rparr>)))"

fun hopfield_train_raw :: "hopfield \<Rightarrow> bool list list \<Rightarrow> hopfield outcome" where
  "hopfield_train_raw s [] = (None, s)"
| "hopfield_train_raw s (pattern # rest) =
     (case hopfield_train_one s pattern of
        (Some e, s') \<Rightarrow> (Some e, s')
      | (None, s') \<Rightarrow> hopfield_train_raw s' rest)"

text \<open>
  The loop of \<^verbatim>\<open>_stop_training\<close>: \<^verbatim>\<open>self._weight_matrix[i][i] = 0\<close> writes into the
  matrix; an index beyond it raises \<^verbatim>\<open>IndexError\<close>, the zeros written so far staying.
\<close>

fun zero_diagonal :: "nat list \<Rightarrow> real list list \<Rightarrow> real list list outcome" where
  "zero_diagonal [] w = (None, w)"
| "zero_diagonal (i # rest) w =
     (if i < length w \<and> i < length (w ! i)
      then zero_diagonal rest (w[i := (w ! i)[i := 0]])
      else (Some IndexError, w))"

text \<open>On the integer \<^verbatim>\<open>0\<close> the first subscript of the loop raises \<^verbatim>\<open>TypeError\<close>.\<close>

definition hopfield_stop_training :: "hopfield \<Rightarrow> hopfield outcome" where
  "hopfield_stop_training s =
     (case weight_matrix s of
        Zero \<Rightarrow> if hopfield_input_dim s = 0 then (None, s) else (Some TypeError, s)
      | Matrix w \<Rightarrow>
          (case zero_diagonal [0..<hopfield_input_dim s] w of
             (e, w') \<Rightarrow> (e, s\<lparr>weight_matrix := Matrix w'\<rparr>)))"

text \<open>
  One pass of the \<^verbatim>\<open>for\<close> loop of \<^verbatim>\<open>_label_one\<close> over the rows of \<open>iter_order\<close>. The
  loop state is the pattern, a fresh array that the loop writes into, and the flag
  \<^verbatim>\<open>has_converged\<close>.
\<close>

fun hopfield_pass ::
  "real list list \<Rightarrow> real list \<Rightarrow> nat list \<Rightarrow> real list \<times> bool \<Rightarrow> error + (real list \<times> bool)" where
  "hopfield_pass w threshold [] st = Inr st"
| "hopfield_pass w threshold (row # rest) (pattern, has_converged) =
     (if \<not> row < length w \<or> \<not> row < length threshold then Inl IndexError
      else
        (case np_dot (w ! row) pattern of
           Inl e \<Rightarrow> Inl e
         | Inr d \<Rightarrow>
             let new_pattern_row = sgn (d - threshold ! row)
             in if new_pattern_row = 0
                then hopfield_pass w threshold rest (pattern, has_converged)
                else if \<not> row < length pattern then Inl IndexError
                else if pattern ! row \<noteq> new_pattern_row
                then hopfield_pass w threshold rest (pattern[row := new_pattern_row], False)
                else hopfield_pass w threshold rest (pattern, has_converged)))"

text \<open>
  The \<^verbatim>\<open>while\<close> loop of \<^verbatim>\<open>_label_one\<close>. \<^verbatim>\<open>numx_rand.shuffle\<close> is the random generator
  of numpy; \<open>shuffle k\<close> stands for what it does to the list at the pass number \<open>k\<close>.
  The loop has no bound, so the model is a partial function: \<open>None\<close> is a loop that
  never ends, \<open>Some (Inl e)\<close> an exception, \<open>Some (Inr p)\<close> the pattern at the end.
\<close>

definition hopfield_order :: "(nat \<Rightarrow> nat list \<Rightarrow> nat list) \<Rightarrow> bool \<Rightarrow> nat \<Rightarrow> nat \<Rightarrow> nat list" where
  "hopfield_order shuffle shuffled k n = (if shuffled then shuffle k [0..<n] else [0..<n])"

partial_function (option) hopfield_relax ::
  "(nat \<Rightarrow> nat list \<Rightarrow> nat list) \<Rightarrow> bool \<Rightarrow> real list list \<Rightarrow> real list \<Rightarrow> nat \<Rightarrow> real list \<Rightarrow>
   (error + real list) option" where
  "hopfield_relax shuffle shuffled w threshold k pattern =
     (case hopfield_pass w threshold (hopfield_order shuffle shuffled k (length w))
             (pattern, True) of
        Inl e \<Rightarrow> Some (Inl e)
      | Inr (pattern', has_converged) \<Rightarrow>
          if has_converged then Some (Inr pattern')
          else hopfield_relax shuffle shuffled w threshold (Suc k) pattern')"

text \<open>\<^verbatim>\<open>_label_one\<close>. \<^verbatim>\<open>len(self._weight_matrix)\<close> raises \<^verbatim>\<open>TypeError\<close> on the integer.\<close>

definition hopfield_label_one ::
  "(nat \<Rightarrow> nat list \<Rightarrow> nat list) \<Rightarrow> hopfield \<Rightarrow> bool list \<Rightarrow> real list \<Rightarrow>
   (error + bool list) option" where
  "hopfield_label_one shuffle s pattern threshold =
     (case weight_matrix s of
        Zero \<Rightarrow> Some (Inl TypeError)
      | Matrix w \<Rightarrow>
          (case hopfield_relax shuffle (shuffled_update s) w threshold 0 (bool_to_sign pattern) of
             None \<Rightarrow> None
           | Some (Inl e) \<Rightarrow> Some (Inl e)
           | Some (Inr p) \<Rightarrow> Some (Inr (sign_to_bool p))))"

subsection \<open>Notions for the properties of the Hopfield network\<close>






text \<open>A network of four units trained on one pattern, before the diagonal is cleared.\<close>

definition hopfield_trained :: hopfield where
  "hopfield_trained = snd (hopfield_train_raw (hopfield_init 4) [[True, True, False, False]])"



section \<open>KMeansClassifier\<close>

text \<open>
  \<^verbatim>\<open>self.data\<close> is a flat Python list while training and an array of rows once
  \<^verbatim>\<open>_stop_training\<close> has run; \<^verbatim>\<open>self._centroids\<close> is \<^verbatim>\<open>None\<close>, a list of rows given by the
  user, or an array of rows.
\<close>

datatype kdata = DataList "real list" | DataArray "real list list"

datatype centroids = NoCentroids | PyList "real list list" | NdArray "real list list"

record kmeans =
  num_clusters :: nat
  data :: kdata
  tlen :: nat
  kmeans_centroids :: centroids
  max_iter :: nat
  kmeans_input_dim :: nat

definition kmeans_init :: "nat \<Rightarrow> nat \<Rightarrow> nat \<Rightarrow> kmeans" where
  "kmeans_init k iters n =
     \<lparr>num_clusters = k, data = DataList [], tlen = 0, kmeans_centroids = NoCentroids,
      max_iter = iters, kmeans_input_dim = n\<rparr>"

text \<open>\<^verbatim>\<open>_train\<close>: an array has no \<^verbatim>\<open>extend\<close>; the count is added before that is found out.\<close>

definition kmeans_train_raw :: "kmeans \<Rightarrow> real list list \<Rightarrow> kmeans outcome" where
  "kmeans_train_raw s x =
     (let s1 = s\<lparr>tlen := tlen s + length x\<rparr>
      in (case data s1 of
            DataList d \<Rightarrow> (None, s1\<lparr>data := DataList (d @ concat x)\<rparr>)
          | DataArray a \<Rightarrow> (Some AttributeError, s1)))"

text \<open>
  \<^verbatim>\<open>numx.array(self.data)\<close> followed by the assignment of the shape
  \<^verbatim>\<open>(self.tlen, self.input_dim)\<close>, which raises \<^verbatim>\<open>ValueError\<close> when the number of
  entries is not the product; \<^verbatim>\<open>self.data\<close> is then the flat array, kept here as an
  array of one row.
\<close>

definition kdata_flat :: "kdata \<Rightarrow> real list" where
  "kdata_flat d = (case d of DataList l \<Rightarrow> l | DataArray a \<Rightarrow> concat a)"

definition np_reshape :: "nat \<Rightarrow> nat \<Rightarrow> real list \<Rightarrow> error + real list list" where
  "np_reshape n d flat =
     (if length flat = n * d then Inr (map (\<lambda>i. take d (drop (i * d) flat)) [0..<n])
      else Inl ValueError)"

text \<open>
  \<^verbatim>\<open>dists.argmin()\<close>: the first index of the least entry; \<^verbatim>\<open>ValueError\<close> on an empty
  array.
\<close>

fun argmin_from :: "nat \<Rightarrow> real \<Rightarrow> nat \<Rightarrow> real list \<Rightarrow> nat" where
  "argmin_from best least i [] = best"
| "argmin_from best least i (v # vs) =
     (if v < least then argmin_from i v (Suc i) vs else argmin_from best least (Suc i) vs)"

definition np_argmin :: "real list \<Rightarrow> error + nat" where
  "np_argmin dists = (case dists of [] \<Rightarrow> Inl ValueError | v # vs \<Rightarrow> Inr (argmin_from 0 v 1 vs))"

text \<open>\<^verbatim>\<open>numx.linalg.norm(data - c)\<close>, the Euclidean norm of the difference.\<close>

definition np_norm :: "real list \<Rightarrow> real" where
  "np_norm v = sqrt (\<Sum>a\<leftarrow>v. a * a)"

definition kmeans_dist :: "real list \<Rightarrow> real list \<Rightarrow> error + real" where
  "kmeans_dist x c =
     (case np_broadcast2 (\<lambda>a b. a - b) x c of Inl e \<Rightarrow> Inl e | Inr v \<Rightarrow> Inr (np_norm v))"

definition kmeans_nearest_centroid_idx :: "real list \<Rightarrow> real list list \<Rightarrow> error + nat" where
  "kmeans_nearest_centroid_idx x cs =
     (case mapE (kmeans_dist x) cs of Inl e \<Rightarrow> Inl e | Inr dists \<Rightarrow> np_argmin dists)"

text \<open>
  The inner loop of \<^verbatim>\<open>_stop_training\<close> over the rows of the data. \<open>new_centroids\<close>
  holds for every cluster the pair of the sum of its rows and their number. The sum
  starts as the number \<^verbatim>\<open>0.\<close>, here \<open>None\<close>, and is a vector from the first row on.
\<close>

definition pos_add :: "real list option \<Rightarrow> real list \<Rightarrow> error + real list" where
  "pos_add pos x =
     (case pos of None \<Rightarrow> Inr x | Some v \<Rightarrow> np_broadcast2 (\<lambda>a b. a + b) v x)"

fun kmeans_assign ::
  "real list list \<Rightarrow> real list list \<Rightarrow> (real list option \<times> nat) list \<Rightarrow>
   error + (real list option \<times> nat) list" where
  "kmeans_assign cs [] new_centroids = Inr new_centroids"
| "kmeans_assign cs (x # rest) new_centroids =
     (case kmeans_nearest_centroid_idx x cs of
        Inl e \<Rightarrow> Inl e
      | Inr idx \<Rightarrow>
          if \<not> idx < length new_centroids then Inl IndexError
          else
            (case pos_add (fst (new_centroids ! idx)) x of
               Inl e \<Rightarrow> Inl e
             | Inr v \<Rightarrow>
                 kmeans_assign cs rest
                   (new_centroids[idx := (Some v, snd (new_centroids ! idx) + 1)])))"

text \<open>
  The centroid of cluster \<open>idx\<close> after the iteration: \<^verbatim>\<open>c[0] / c[1]\<close> when the count is
  positive, \<^verbatim>\<open>centroids[idx]\<close> otherwise. A positive count comes with a vector as sum.
\<close>

definition kmeans_new_centroid :: "real list list \<Rightarrow> nat \<Rightarrow> real list option \<times> nat \<Rightarrow> real list" where
  "kmeans_new_centroid cs idx c =
     (if 0 < snd c
      then (case fst c of Some v \<Rightarrow> map (\<lambda>a. a / real (snd c)) v | None \<Rightarrow> [])
      else cs ! idx)"

text \<open>One iteration of the loop over \<^verbatim>\<open>step\<close>: the new centroids from the old ones.\<close>

definition kmeans_step :: "real list list \<Rightarrow> real list list \<Rightarrow> error + real list list" where
  "kmeans_step dat cs =
     (case kmeans_assign cs dat (replicate (length cs) (None, 0)) of
        Inl e \<Rightarrow> Inl e
      | Inr new_centroids \<Rightarrow>
          Inr (map (\<lambda>(idx, c). kmeans_new_centroid cs idx c)
                 (zip [0..<length new_centroids] new_centroids)))"

definition centroid_rows :: "centroids \<Rightarrow> real list list" where
  "centroid_rows c = (case c of NoCentroids \<Rightarrow> [] | PyList r \<Rightarrow> r | NdArray r \<Rightarrow> r)"

text \<open>
  The loop \<^verbatim>\<open>for step in xrange(self.max_iter)\<close>, by the number of iterations left.
  Only the branch that finds the centroids unchanged assigns \<^verbatim>\<open>self._centroids\<close>; when
  the iterations are used up the loop ends and the method returns.
\<close>

fun kmeans_loop :: "nat \<Rightarrow> real list list \<Rightarrow> centroids \<Rightarrow> kmeans \<Rightarrow> kmeans outcome" where
  "kmeans_loop 0 dat cs s = (None, s)"
| "kmeans_loop (Suc n) dat cs s =
     (case kmeans_step dat (centroid_rows cs) of
        Inl e \<Rightarrow> (Some e, s)
      | Inr new_centroids \<Rightarrow>
          if new_centroids = centroid_rows cs then (None, s\<lparr>kmeans_centroids := cs\<rparr>)
          else kmeans_loop n dat (NdArray new_centroids) s)"

text \<open>
  \<^verbatim>\<open>not self._centroids\<close>: \<^verbatim>\<open>None\<close> and the empty list are false; the truth value of
  an array is that of its only entry, false for an array without entries, and
  \<^verbatim>\<open>ValueError\<close> for an array of more than one entry.
\<close>

definition centroids_falsy :: "centroids \<Rightarrow> error + bool" where
  "centroids_falsy c =
     (case c of
        NoCentroids \<Rightarrow> Inr True
      | PyList r \<Rightarrow> Inr (r = [])
      | NdArray r \<Rightarrow>
          (case concat r of [] \<Rightarrow> Inr True | [v] \<Rightarrow> Inr (v = 0) | _ \<Rightarrow> Inl ValueError))"

text \<open>
  \<^verbatim>\<open>_stop_training\<close>. \<^verbatim>\<open>random.sample\<close> is the random generator of Python; \<open>sample\<close>
  stands for the indices it draws from a population of the given size. It raises
  \<^verbatim>\<open>ValueError\<close> when asked for more indices than the population has.
\<close>

definition kmeans_stop_training :: "(nat \<Rightarrow> nat \<Rightarrow> nat list) \<Rightarrow> kmeans \<Rightarrow> kmeans outcome" where
  "kmeans_stop_training sample s =
     (case np_reshape (tlen s) (kmeans_input_dim s) (kdata_flat (data s)) of
        Inl e \<Rightarrow> (Some e, s\<lparr>data := DataArray [kdata_flat (data s)]\<rparr>)
      | Inr dat \<Rightarrow>
          let s1 = s\<lparr>data := DataArray dat\<rparr>
          in (case centroids_falsy (kmeans_centroids s1) of
                Inl e \<Rightarrow> (Some e, s1)
              | Inr True \<Rightarrow>
                  if tlen s1 < num_clusters s1 then (Some ValueError, s1)
                  else
                    let centr_idx = sample (tlen s1) (num_clusters s1)
                    in if \<not> list_all (\<lambda>i. i < length dat) centr_idx then (Some IndexError, s1)
                       else kmeans_loop (max_iter s1) dat
                              (NdArray (map (\<lambda>i. dat ! i) centr_idx)) s1
              | Inr False \<Rightarrow> kmeans_loop (max_iter s1) dat (kmeans_centroids s1) s1))"

text \<open>
  \<^verbatim>\<open>_label\<close>: the index of the nearest centroid for every row. With \<^verbatim>\<open>self._centroids\<close>
  still \<^verbatim>\<open>None\<close> the first row makes \<^verbatim>\<open>_nearest_centroid_idx\<close> iterate over \<^verbatim>\<open>None\<close>,
  which raises \<^verbatim>\<open>TypeError\<close>; without rows nothing is evaluated.
\<close>

definition kmeans_label :: "kmeans \<Rightarrow> real list list \<Rightarrow> error + nat list" where
  "kmeans_label s x =
     (case kmeans_centroids s of
        NoCentroids \<Rightarrow> if x = [] then Inr [] else Inl TypeError
      | PyList cs \<Rightarrow> mapE (\<lambda>xi. kmeans_nearest_centroid_idx xi cs) x
      | NdArray cs \<Rightarrow> mapE (\<lambda>xi. kmeans_nearest_centroid_idx xi cs) x)"

subsection \<open>Notions for the properties of K-means\<close>

text \<open>
  The rows assigned to cluster \<open>idx\<close>, in the order of the data, and the mean of a
  list of rows of length \<open>d\<close>.
\<close>

definition kmeans_assigned :: "real list list \<Rightarrow> real list list \<Rightarrow> nat \<Rightarrow> real list list" where
  "kmeans_assigned dat cs idx = filter (\<lambda>x. kmeans_nearest_centroid_idx x cs = Inr idx) dat"

definition vec_mean :: "nat \<Rightarrow> real list list \<Rightarrow> real list" where
  "vec_mean d rows = map (\<lambda>k. (\<Sum>x\<leftarrow>rows. x ! k) / real (length rows)) [0..<d]"

text \<open>The accumulated sum of a cluster after more rows, as \<open>kmeans_assign\<close> builds it.\<close>

definition pos_add_all :: "real list option \<Rightarrow> real list list \<Rightarrow> real list option" where
  "pos_add_all pos rows =
     foldl (\<lambda>pos x. Some (case pos of None \<Rightarrow> x | Some v \<Rightarrow> map2 (\<lambda>a b. a + b) v x)) pos rows"

text \<open>
  All of \<open>n\<close> iterations run, none raises and none finds the centroids unchanged.
\<close>

fun kmeans_never_stable :: "nat \<Rightarrow> real list list \<Rightarrow> real list list \<Rightarrow> bool" where
  "kmeans_never_stable 0 dat cs = True"
| "kmeans_never_stable (Suc n) dat cs =
     (case kmeans_step dat cs of
        Inl e \<Rightarrow> False
      | Inr new_centroids \<Rightarrow> new_centroids \<noteq> cs \<and> kmeans_never_stable n dat new_centroids)"

text \<open>
  Three points on a line in two clusters, one iteration allowed, and a generator that
  draws the first indices.
\<close>

definition kmeans_example :: kmeans where
  "kmeans_example = snd (kmeans_train_raw (kmeans_init 2 1 1) [[0], [2], [10]])"

definition first_indices :: "nat \<Rightarrow> nat \<Rightarrow> nat list" where
  "first_indices n k = [0..<k]"

text \<open>The same data with ten iterations allowed, enough for the centroids to settle.\<close>

definition kmeans_example_settling :: kmeans where
  "kmeans_example_settling = snd (kmeans_train_raw (kmeans_init 2 10 1) [[0], [2], [10]])"

section \<open>GaussianClassifierNode\<close>

subsection \<open>The numeric substrate\<close>

text \<open>
  A row vector times a matrix, the matrix given by its rows (\<^verbatim>\<open>utils.mult\<close> on one row
  of the batch). The matrix has as many rows as the vector has entries, all of one
  length; otherwise numpy raises \<^verbatim>\<open>ValueError\<close>.
\<close>

definition np_vec_mat :: "real list \<Rightarrow> real list list \<Rightarrow> error + real list" where
  "np_vec_mat v m =
     (let c = (case m of [] \<Rightarrow> 0 | r # _ \<Rightarrow> length r)
      in if length v = length m \<and> list_all (\<lambda>r. length r = c) m
         then Inr (map (\<lambda>j. \<Sum>k\<leftarrow>[0..<length v]. v ! k * m ! k ! j) [0..<c])
         else Inl ValueError)"

text \<open>
  A numpy float that need not be a finite number is a \<open>real option\<close>: \<open>None\<close> stands
  for \<^verbatim>\<open>nan\<close> and the infinities, which numpy returns (with a warning, not an
  exception) from the square root of a negative number and from a division by zero,
  and which the later operations of this class hand on. In one case \<open>None\<close> is
  coarser than numpy: a finite number divided by an infinity is zero there. That
  happens only to the finite entries of a row whose total is infinite; an entry of
  such a row that is not finite becomes \<^verbatim>\<open>nan\<close>.
\<close>

definition np_sqrt :: "real \<Rightarrow> real option" where
  "np_sqrt d = (if d < 0 then None else Some (sqrt d))"

definition np_divide :: "real option \<Rightarrow> real option \<Rightarrow> real option" where
  "np_divide a b =
     (case (a, b) of
        (Some u, Some v) \<Rightarrow> if v = 0 then None else Some (u / v)
      | _ \<Rightarrow> None)"

fun np_sum :: "real option list \<Rightarrow> real option" where
  "np_sum [] = Some 0"
| "np_sum (a # as) =
     (case (a, np_sum as) of (Some u, Some v) \<Rightarrow> Some (u + v) | _ \<Rightarrow> None)"

text \<open>
  \<^verbatim>\<open>numx.compress(cond, x, axis=0)\<close>: the rows of \<open>x\<close> at the positions where \<open>cond\<close>
  holds; a position that holds beyond the last row raises \<^verbatim>\<open>IndexError\<close>.
\<close>

definition np_compress :: "bool list \<Rightarrow> 'a list \<Rightarrow> error + 'a list" where
  "np_compress cond x =
     (if list_ex (\<lambda>b. b) (drop (length x) cond) then Inl IndexError
      else Inr (map snd (filter fst (zip cond x))))"

text \<open>
  The covariance accumulator \<^verbatim>\<open>utils.CovarianceMatrix\<close> and the functions
  \<^verbatim>\<open>numx_linalg.det\<close> and \<^verbatim>\<open>utils.inv\<close> are not in the source file. The classifier is
  modelled for every accumulator type \<open>'c\<close> and every choice of these operations: the
  fresh accumulator, its \<^verbatim>\<open>update\<close> with a batch, its \<^verbatim>\<open>fix\<close> (returning covariance
  matrix, mean and number of observations), the determinant and the inverse. Each of
  them but the determinant may raise.
\<close>

record 'c cov_ops =
  cov_new :: 'c
  cov_update :: "'c \<Rightarrow> real list list \<Rightarrow> error + 'c"
  cov_fix :: "'c \<Rightarrow> error + (real list list \<times> real list \<times> real)"
  linalg_det :: "real list list \<Rightarrow> real"
  linalg_inv :: "real list list \<Rightarrow> error + real list list"

subsection \<open>The classifier\<close>

text \<open>
  \<^verbatim>\<open>__init__\<close> sets \<^verbatim>\<open>cov_objs\<close> only; \<^verbatim>\<open>_stop_training\<close> sets the other five
  attributes and deletes \<^verbatim>\<open>cov_objs\<close>. An attribute that does not exist is \<open>None\<close>, and
  reading it raises \<^verbatim>\<open>AttributeError\<close>. The fields \<open>gaussian_labels\<close> and \<open>gaussian_p\<close> are
  the attributes \<^verbatim>\<open>labels\<close> and \<^verbatim>\<open>p\<close>.
\<close>

record ('l, 'c) gaussian =
  cov_objs :: "('l \<times> 'c) list option"
  gaussian_labels :: "'l list option"
  inv_covs :: "real list list list option"
  means :: "real list list option"
  gaussian_p :: "real list option"
  sqrt_def_covs :: "real option list option"
  gaussian_input_dim :: nat

definition gaussian_init :: "nat \<Rightarrow> ('l, 'c) gaussian" where
  "gaussian_init n =
     \<lparr>cov_objs = Some [], gaussian_labels = None, inv_covs = None, means = None, gaussian_p = None,
      sqrt_def_covs = None, gaussian_input_dim = n\<rparr>"

definition gaussian_check_train_args :: "real list list \<Rightarrow> 'l labels_arg \<Rightarrow> error option" where
  "gaussian_check_train_args x lbls =
     (if (case lbls of Many ls \<Rightarrow> length ls \<noteq> length x | Single l \<Rightarrow> False)
      then Some TrainingException else None)"

definition gaussian_update_covs ::
  "'c cov_ops \<Rightarrow> ('l, 'c) gaussian \<Rightarrow> real list list \<Rightarrow> 'l \<Rightarrow> ('l, 'c) gaussian outcome" where
  "gaussian_update_covs ops s x lbl =
     (case cov_objs s of
        None \<Rightarrow> (Some AttributeError, s)
      | Some objs \<Rightarrow>
          let objs1 = (if map_of objs lbl = None then AList.update lbl (cov_new ops) objs else objs)
          in (case map_of objs1 lbl of
                None \<Rightarrow> (Some KeyError, s\<lparr>cov_objs := Some objs1\<rparr>)
              | Some c \<Rightarrow>
                  (case cov_update ops c x of
                     Inl e \<Rightarrow> (Some e, s\<lparr>cov_objs := Some objs1\<rparr>)
                   | Inr c' \<Rightarrow> (None, s\<lparr>cov_objs := Some (AList.update lbl c' objs1)\<rparr>))))"

text \<open>
  The loop of \<^verbatim>\<open>_train\<close> over \<^verbatim>\<open>set(labels_)\<close>, the different labels of the call, in
  the order of their first occurrence (Python fixes no order for a set).
\<close>

fun gaussian_train_loop ::
  "'c cov_ops \<Rightarrow> real list list \<Rightarrow> 'l list \<Rightarrow> 'l list \<Rightarrow> ('l, 'c) gaussian \<Rightarrow> ('l, 'c) gaussian outcome" where
  "gaussian_train_loop ops x labels_arr [] s = (None, s)"
| "gaussian_train_loop ops x labels_arr (lbl # rest) s =
     (case np_compress (map (\<lambda>l. l = lbl) labels_arr) x of
        Inl e \<Rightarrow> (Some e, s)
      | Inr x_lbl \<Rightarrow>
          (case gaussian_update_covs ops s x_lbl lbl of
             (Some e, s') \<Rightarrow> (Some e, s')
           | (None, s') \<Rightarrow> gaussian_train_loop ops x labels_arr rest s'))"

definition gaussian_train_raw ::
  "'c cov_ops \<Rightarrow> ('l, 'c) gaussian \<Rightarrow> real list list \<Rightarrow> 'l labels_arg \<Rightarrow> ('l, 'c) gaussian outcome" where
  "gaussian_train_raw ops s x lbls =
     (case lbls of
        Many labels_arr \<Rightarrow> gaussian_train_loop ops x labels_arr (remdups labels_arr) s
      | Single l \<Rightarrow> gaussian_update_covs ops s x l)"

text \<open>
  The first loop of \<^verbatim>\<open>_stop_training\<close>. Its state is the four lists being appended to
  and \<^verbatim>\<open>nitems\<close>. The inverse is computed last, so when it raises the other three
  lists already hold the entry of the label.
\<close>

record stop_acc =
  acc_inv_covs :: "real list list list"
  acc_means :: "real list list"
  acc_p :: "real list"
  acc_sqrt_def_covs :: "real option list"
  acc_nitems :: real

fun gaussian_stop_loop ::
  "'c cov_ops \<Rightarrow> ('l \<times> 'c) list \<Rightarrow> 'l list \<Rightarrow> stop_acc \<Rightarrow> stop_acc outcome" where
  "gaussian_stop_loop ops objs [] a = (None, a)"
| "gaussian_stop_loop ops objs (lbl # rest) a =
     (case map_of objs lbl of
        None \<Rightarrow> (Some KeyError, a)
      | Some c \<Rightarrow>
          (case cov_fix ops c of
             Inl e \<Rightarrow> (Some e, a)
           | Inr (cov, mean, p_lbl) \<Rightarrow>
               let a1 = a\<lparr>acc_nitems := acc_nitems a + p_lbl,
                          acc_sqrt_def_covs := acc_sqrt_def_covs a @ [np_sqrt (linalg_det ops cov)],
                          acc_means := acc_means a @ [mean],
                          acc_p := acc_p a @ [p_lbl]\<rparr>
               in (case linalg_inv ops cov of
                     Inl e \<Rightarrow> (Some e, a1)
                   | Inr ic \<Rightarrow>
                       gaussian_stop_loop ops objs rest
                         (a1\<lparr>acc_inv_covs := acc_inv_covs a1 @ [ic]\<rparr>))))"

definition store_acc :: "('l, 'c) gaussian \<Rightarrow> stop_acc \<Rightarrow> ('l, 'c) gaussian" where
  "store_acc s a =
     s\<lparr>inv_covs := Some (acc_inv_covs a), means := Some (acc_means a), gaussian_p := Some (acc_p a),
       sqrt_def_covs := Some (acc_sqrt_def_covs a)\<rparr>"

text \<open>
  \<^verbatim>\<open>_stop_training\<close>. Its first statement reads \<^verbatim>\<open>self.cov_objs\<close>; its last one deletes
  that attribute. The second loop divides Python numbers by \<^verbatim>\<open>float(nitems)\<close>, which
  raises \<^verbatim>\<open>ZeroDivisionError\<close> when \<^verbatim>\<open>nitems\<close> is zero and there is an entry to divide.
\<close>

definition gaussian_stop_training ::
  "'c cov_ops \<Rightarrow> ('l :: linorder, 'c) gaussian \<Rightarrow> ('l, 'c) gaussian outcome" where
  "gaussian_stop_training ops s =
     (case cov_objs s of
        None \<Rightarrow> (Some AttributeError, s)
      | Some objs \<Rightarrow>
          let lbls = sort (map fst objs);
              s1 = s\<lparr>gaussian_labels := Some lbls\<rparr>;
              a0 = \<lparr>acc_inv_covs = [], acc_means = [], acc_p = [], acc_sqrt_def_covs = [],
                    acc_nitems = 0\<rparr>
          in (case gaussian_stop_loop ops objs lbls a0 of
                (Some e, a) \<Rightarrow> (Some e, store_acc s1 a)
              | (None, a) \<Rightarrow>
                  if acc_p a \<noteq> [] \<and> acc_nitems a = 0
                  then (Some ZeroDivisionError, store_acc s1 a)
                  else (None, (store_acc s1 a)
                                \<lparr>gaussian_p := Some (map (\<lambda>v. v / acc_nitems a) (acc_p a)),
                                 cov_objs := None\<rparr>)))"

text \<open>
  \<^verbatim>\<open>_gaussian_prob\<close> for one row of the batch: the density of the Gaussian of label
  number \<open>lbl_idx\<close> at the row, from the stored square root of the determinant, inverse
  covariance and mean.
\<close>

definition gaussian_prob_row ::
  "nat \<Rightarrow> real option \<Rightarrow> real list list \<Rightarrow> real list \<Rightarrow> real list \<Rightarrow> error + real option" where
  "gaussian_prob_row n sqrt_detS invS mean row =
     (case np_broadcast2 (\<lambda>a b. a - b) row mean of
        Inl e \<Rightarrow> Inl e
      | Inr x_mn \<Rightarrow>
          (case np_vec_mat x_mn invS of
             Inl e \<Rightarrow> Inl e
           | Inr y \<Rightarrow>
               (case np_broadcast2 (\<lambda>a b. a * b) y x_mn of
                  Inl e \<Rightarrow> Inl e
                | Inr prods \<Rightarrow>
                    let exponent = - (1 / 2) * sum_list prods;
                        constant = np_divide (Some ((2 * pi) powr - (real n / 2))) sqrt_detS
                    in Inr (map_option (\<lambda>c. c * exp exponent) constant))))"

text \<open>
  \<^verbatim>\<open>_gaussian_prob(x, lbl_idx)\<close> on the batch: the three list reads come first and raise
  \<^verbatim>\<open>IndexError\<close> beyond the end of a list, \<^verbatim>\<open>AttributeError\<close> when the attribute does
  not exist.
\<close>

definition gaussian_prob ::
  "('l, 'c) gaussian \<Rightarrow> real list list \<Rightarrow> nat \<Rightarrow> error + real option list" where
  "gaussian_prob s x lbl_idx =
     (case (sqrt_def_covs s, inv_covs s, means s) of
        (Some sq, Some ic, Some mn) \<Rightarrow>
          if lbl_idx < length sq \<and> lbl_idx < length ic \<and> lbl_idx < length mn
          then mapE (gaussian_prob_row (gaussian_input_dim s) (sq ! lbl_idx) (ic ! lbl_idx)
                       (mn ! lbl_idx)) x
          else Inl IndexError
      | _ \<Rightarrow> Inl AttributeError)"

text \<open>
  One column of \<^verbatim>\<open>tmp_prob\<close> in \<^verbatim>\<open>class_probabilities\<close>: the densities of label \<open>i\<close>
  times the prior \<^verbatim>\<open>self.p[i]\<close>.
\<close>

definition gaussian_column ::
  "('l, 'c) gaussian \<Rightarrow> real list list \<Rightarrow> nat \<Rightarrow> error + real option list" where
  "gaussian_column s x i =
     (case gaussian_prob s x i of
        Inl e \<Rightarrow> Inl e
      | Inr col \<Rightarrow>
          (case gaussian_p s of
             None \<Rightarrow> Inl AttributeError
           | Some ps \<Rightarrow>
               if i < length ps then Inr (map (map_option (\<lambda>g. g * ps ! i)) col)
               else Inl IndexError))"

text \<open>
  \<^verbatim>\<open>class_probabilities\<close>: the columns are computed label by label, then every row is
  divided by its sum. The result is given by rows; row \<open>r\<close> holds entry \<open>r\<close> of every
  column.
\<close>

definition normalize_row :: "real option list \<Rightarrow> real option list" where
  "normalize_row row = map (\<lambda>v. np_divide v (np_sum row)) row"

definition gaussian_class_probabilities ::
  "('l, 'c) gaussian \<Rightarrow> real list list \<Rightarrow> error + real option list list" where
  "gaussian_class_probabilities s x =
     (case gaussian_labels s of
        None \<Rightarrow> Inl AttributeError
      | Some lbls \<Rightarrow>
          (case mapE (gaussian_column s x) [0..<length lbls] of
             Inl e \<Rightarrow> Inl e
           | Inr cols \<Rightarrow>
               Inr (map (\<lambda>r. normalize_row (map (\<lambda>col. col ! r) cols)) [0..<length x])))"

subsection \<open>Notions for the properties of the Gaussian classifier\<close>

text \<open>
  The entry of \<^verbatim>\<open>tmp_prob\<close> for a row and the label number \<open>i\<close>, before the
  normalisation: what \<^verbatim>\<open>class_probabilities\<close> computes for the batch of that one row.
  The unnormalised row of a query row holds the entries of all labels; its \<open>np_sum\<close> is
  the entry of \<^verbatim>\<open>tmp_tot\<close> for the row.
\<close>

definition gaussian_tmp_entry :: "('l, 'c) gaussian \<Rightarrow> real list \<Rightarrow> nat \<Rightarrow> real option" where
  "gaussian_tmp_entry s row i = (case gaussian_column s [row] i of Inr [v] \<Rightarrow> v | _ \<Rightarrow> None)"

definition gaussian_tmp_row :: "('l, 'c) gaussian \<Rightarrow> real list \<Rightarrow> real option list" where
  "gaussian_tmp_row s row =
     (case gaussian_labels s of
        None \<Rightarrow> []
      | Some lbls \<Rightarrow> map (gaussian_tmp_entry s row) [0..<length lbls])"

text \<open>
  A finalized classifier: the five attributes of \<^verbatim>\<open>_stop_training\<close> exist, hold one
  entry per label, and every mean and inverse covariance has the input dimension.
\<close>

definition gaussian_finalized :: "('l, 'c) gaussian \<Rightarrow> bool" where
  "gaussian_finalized s =
     (case (gaussian_labels s, inv_covs s, means s, gaussian_p s, sqrt_def_covs s) of
        (Some lbls, Some ic, Some mn, Some ps, Some sq) \<Rightarrow>
          length ic = length lbls \<and> length mn = length lbls \<and>
          length ps = length lbls \<and> length sq = length lbls \<and>
          list_all (\<lambda>m. length m = gaussian_input_dim s) mn \<and>
          list_all (\<lambda>m. length m = gaussian_input_dim s \<and>
                         list_all (\<lambda>r. length r = gaussian_input_dim s) m) ic
      | _ \<Rightarrow> False)"


subsection \<open>An instance of the missing operations\<close>

text \<open>
  The properties below hold for every choice of the operations in \<open>cov_ops\<close>. To run
  the model on concrete data one choice is fixed here. The accumulator holds what the
  spec names: the sum of the outer products of the rows, the sum of the rows and their
  number. \<open>fix\<close> returns the mean outer product minus the outer product of the mean as
  covariance, the mean, and the number of rows. The determinant is expanded along the
  first row, and the inverse is the transposed matrix of cofactors over the
  determinant, \<^verbatim>\<open>LinAlgError\<close> for determinant zero.
\<close>

record cov_acc =
  acc_outer :: "real list list"
  acc_sum :: "real list"
  acc_count :: nat

definition acc_add_row :: "cov_acc \<Rightarrow> real list \<Rightarrow> cov_acc" where
  "acc_add_row c row =
     \<lparr>acc_outer = (if acc_count c = 0 then map (\<lambda>a. map (\<lambda>b. a * b) row) row
                   else map2 (\<lambda>a r. map2 (\<lambda>b v. v + a * b) row r) row (acc_outer c)),
      acc_sum = (if acc_count c = 0 then row else map2 (+) (acc_sum c) row),
      acc_count = Suc (acc_count c)\<rparr>"

definition acc_fix :: "cov_acc \<Rightarrow> error + (real list list \<times> real list \<times> real)" where
  "acc_fix c =
     (if acc_count c = 0 then Inl ZeroDivisionError
      else
        let n = real (acc_count c);
            mean = map (\<lambda>v. v / n) (acc_sum c)
        in Inr (map2 (\<lambda>mi r. map2 (\<lambda>mj v. v / n - mi * mj) mean r) mean (acc_outer c),
                mean, n))"

definition del_col :: "nat \<Rightarrow> 'a list \<Rightarrow> 'a list" where
  "del_col j row = take j row @ drop (Suc j) row"

function laplace_det :: "real list list \<Rightarrow> real" where
  "laplace_det [] = 1"
| "laplace_det (r # rs) =
     (\<Sum>j\<leftarrow>[0..<length r]. (- 1) ^ j * r ! j * laplace_det (map (del_col j) rs))"
  by pat_completeness auto
termination
  by (relation "measure length") auto

definition cofactor_inv :: "real list list \<Rightarrow> error + real list list" where
  "cofactor_inv m =
     (let d = laplace_det m; n = length m
      in if d = 0 then Inl LinAlgError
         else Inr (map (\<lambda>i. map (\<lambda>j. (- 1) ^ (i + j) *
                     laplace_det (map (del_col i) (del_col j m)) / d) [0..<n]) [0..<n]))"

definition example_ops :: "cov_acc cov_ops" where
  "example_ops =
     \<lparr>cov_new = \<lparr>acc_outer = [], acc_sum = [], acc_count = 0\<rparr>,
      cov_update = (\<lambda>c x. Inr (foldl acc_add_row c x)),
      cov_fix = acc_fix,
      linalg_det = laplace_det,
      linalg_inv = cofactor_inv\<rparr>"

text \<open>A classifier trained on the rows \<open>0\<close> and \<open>2\<close> of one class, and its finalized state.\<close>

definition gaussian_trained :: "(nat, cov_acc) gaussian" where
  "gaussian_trained = snd (gaussian_train_raw example_ops (gaussian_init 1) [[0], [2]] (Many [0, 0]))"

definition gaussian_fitted :: "(nat, cov_acc) gaussian" where
  "gaussian_fitted =
     \<lparr>cov_objs = None, gaussian_labels = Some [0], inv_covs = Some [[[1]]], means = Some [[1]],
      gaussian_p = Some [1], sqrt_def_covs = Some [Some 1], gaussian_input_dim = 1\<rparr>"


definition gaussian_two_fitted :: "(nat, cov_acc) gaussian" where
  "gaussian_two_fitted =
     \<lparr>cov_objs = None, gaussian_labels = Some [0, 1], inv_covs = Some [[[1]], [[1]]],
      means = Some [[1], [5]], gaussian_p = Some [1 / 2, 1 / 2],
      sqrt_def_covs = Some [Some 1, Some 1], gaussian_input_dim = 1\<rparr>"





section \<open>The training call of the node base class\<close>

text \<open>
  Modelled from the spec: the public \<^verbatim>\<open>train\<close> of the node base class, which is not
  in the source file. The spec (section 4.1) has it check that every row of the batch
  has length \<^verbatim>\<open>input_dim\<close> and that a sequence of labels has one label per row, raise
  a training error on a violation before anything is written, and run the training
  step of the classifier otherwise. The check of the labels is the classifier's
  \<^verbatim>\<open>_check_train_args\<close>, the training step its \<^verbatim>\<open>_train\<close>; the spec's training error
  is \<^verbatim>\<open>mdp.TrainingException\<close>.
\<close>

definition node_train ::
  "nat \<Rightarrow> ('a list list \<Rightarrow> 'l labels_arg \<Rightarrow> error option) \<Rightarrow>
   ('s \<Rightarrow> 'a list list \<Rightarrow> 'l labels_arg \<Rightarrow> 's outcome) \<Rightarrow>
   's \<Rightarrow> 'a list list \<Rightarrow> 'l labels_arg \<Rightarrow> 's outcome" where
  "node_train input_dim check_train_args train_step s x lbls =
     (if \<not> list_all (\<lambda>row. length row = input_dim) x then (Some TrainingException, s)
      else
        (case check_train_args x lbls of
           Some e \<Rightarrow> (Some e, s)
         | None \<Rightarrow> train_step s x lbls))"

text \<open>\<^verbatim>\<open>SimpleMarkovClassifier._check_train_args\<close> tests the number of labels only.\<close>

definition markov_check_train_args :: "'f list list \<Rightarrow> 'l labels_arg \<Rightarrow> error option" where
  "markov_check_train_args x lbls =
     (if (case lbls of Many ls \<Rightarrow> length ls \<noteq> length x | Single l \<Rightarrow> False)
      then Some TrainingException else None)"

definition perceptron_train ::
  "perceptron \<Rightarrow> real list list \<Rightarrow> real labels_arg \<Rightarrow> perceptron outcome" where
  "perceptron_train s =
     node_train (perceptron_input_dim s) perceptron_check_train_args perceptron_train_raw s"

definition markov_train ::
  "nat \<Rightarrow> ('f, 'l) markov \<Rightarrow> 'f list list \<Rightarrow> 'l labels_arg \<Rightarrow> ('f, 'l) markov outcome" where
  "markov_train input_dim s =
     node_train input_dim markov_check_train_args
       (\<lambda>s x lbls. (None, markov_train_raw x lbls s)) s"

definition gaussian_train ::
  "'c cov_ops \<Rightarrow> ('l, 'c) gaussian \<Rightarrow> real list list \<Rightarrow> 'l labels_arg \<Rightarrow> ('l, 'c) gaussian outcome" where
  "gaussian_train ops s =
     node_train (gaussian_input_dim s) gaussian_check_train_args (gaussian_train_raw ops) s"

text \<open>A perceptron that has been trained, and a Markov classifier with one observation.\<close>

definition perceptron_trained :: perceptron where
  "perceptron_trained =
     \<lparr>weights = [- 5], offset_weight = - (1 / 5), learning_rate = 1 / 10,
      perceptron_input_dim = 1\<rparr>"

section \<open>Lemmas on the common notions\<close>

lemma mapE_map:
  "\<forall>a \<in> set as. f a = Inr (g a) \<Longrightarrow> mapE f as = Inr (map g as)"
  by (induction as) simp_all

section \<open>Properties of SimpleMarkovClassifier\<close>

lemma map_of_count_up:
  "map_of (count_up k d) = (map_of d)(k \<mapsto> (case map_of d k of Some c \<Rightarrow> c + 1 | None \<Rightarrow> 1))"
  by (simp add: count_up_def update_conv' split: option.splits)

lemma keys_count_up:
  "map fst (count_up k d) = (if k \<in> set (map fst d) then map fst d else map fst d @ [k])"
  by (simp add: count_up_def update_keys split: option.splits)

lemma conn0_learn:
  "conn0 (markov_learn f l s) f' l' = conn0 s f' l' + (if f' = f \<and> l' = l then 1 else 0)"
  by (simp add: conn0_def markov_learn_def map_of_count_up split: option.splits)

lemma feat0_learn:
  "feat0 (markov_learn f l s) f' = feat0 s f' + (if f' = f then 1 else 0)"
  by (simp add: feat0_def markov_learn_def map_of_count_up split: option.splits)

lemma sum_list_indicator:
  "distinct ls \<Longrightarrow> (\<Sum>x\<leftarrow>ls. (g x + (if P \<and> x = l then (1::int) else 0))) =
     (\<Sum>x\<leftarrow>ls. g x) + (if P \<and> l \<in> set ls then 1 else 0)"
  by (induction ls) auto

lemma markov_inv_init: "markov_inv markov_init"
  by (simp add: markov_inv_def markov_init_def feat0_def conn0_def)

lemma markov_inv_learn:
  assumes "markov_inv s"
  shows "markov_inv (markov_learn f l s)"
proof -
  let ?s = "markov_learn f l s"
  have d: "distinct (map fst (labels s))" using assms by (simp add: markov_inv_def)
  have keys: "map fst (labels ?s) =
      (if l \<in> set (map fst (labels s)) then map fst (labels s) else map fst (labels s) @ [l])"
    by (simp add: markov_learn_def keys_count_up)
  have 1: "distinct (map fst (labels ?s))" using d by (simp add: keys)
  have p2: "\<And>l' c. map_of (labels s) l' = Some c \<Longrightarrow> 0 < c"
    using assms unfolding markov_inv_def by blast
  have p3: "\<And>f' c. map_of (features s) f' = Some c \<Longrightarrow> 0 < c \<and> c \<le> ntotal_connections s"
    using assms unfolding markov_inv_def by blast
  have p0: "0 \<le> ntotal_connections s"
    using assms unfolding markov_inv_def by blast
  have 0: "0 \<le> ntotal_connections ?s"
    using p0 by (simp add: markov_learn_def)
  have 2: "\<forall>l' c. map_of (labels ?s) l' = Some c \<longrightarrow> 0 < c"
    using p2 by (fastforce simp: markov_learn_def map_of_count_up split: option.splits if_splits)
  have 3: "\<forall>f' c. map_of (features ?s) f' = Some c \<longrightarrow> 0 < c \<and> c \<le> ntotal_connections ?s"
  proof (intro allI impI)
    fix f' c assume a: "map_of (features ?s) f' = Some c"
    have nt: "ntotal_connections ?s = ntotal_connections s + 1"
      by (simp add: markov_learn_def)
    show "0 < c \<and> c \<le> ntotal_connections ?s"
    proof (cases "f' = f")
      case True
      with a have "c = (case map_of (features s) f of Some c \<Rightarrow> c + 1 | None \<Rightarrow> 1)"
        by (simp add: markov_learn_def map_of_count_up)
      then show ?thesis using p3[of f] p0 nt by (cases "map_of (features s) f") auto
    next
      case False
      with a have "map_of (features s) f' = Some c"
        by (simp add: markov_learn_def map_of_count_up)
      then show ?thesis using p3[of f' c] nt by simp
    qed
  qed
  have z: "\<And>f'. l \<notin> fst ` set (labels s) \<Longrightarrow> conn0 s f' l = 0"
    using assms by (simp add: markov_inv_def)
  have 4: "\<forall>f'. feat0 ?s f' = (\<Sum>l'\<leftarrow>map fst (labels ?s). conn0 ?s f' l')"
  proof
    fix f'
    define ks where "ks = map fst (labels s)"
    have dk: "distinct ks" using d by (simp add: ks_def)
    have base: "feat0 s f' = (\<Sum>l'\<leftarrow>ks. conn0 s f' l')"
      using assms by (simp add: markov_inv_def ks_def)
    have keys': "map fst (labels ?s) = (if l \<in> set ks then ks else ks @ [l])"
      using keys by (simp add: ks_def)
    have step: "(\<Sum>l'\<leftarrow>ks. conn0 ?s f' l') =
        (\<Sum>l'\<leftarrow>ks. conn0 s f' l') + (if f' = f \<and> l \<in> set ks then 1 else 0)"
      using sum_list_indicator[OF dk, of "conn0 s f'" "f' = f" l] by (simp add: conn0_learn)
    show "feat0 ?s f' = (\<Sum>l'\<leftarrow>map fst (labels ?s). conn0 ?s f' l')"
    proof (cases "l \<in> set ks")
      case True
      then show ?thesis
        unfolding keys' using base step by (simp add: feat0_learn)
    next
      case False
      then have "conn0 s f' l = 0" using z by (simp add: ks_def)
      with False show ?thesis
        unfolding keys' using base step by (simp add: feat0_learn conn0_learn)
    qed
  qed
  have 5: "\<forall>f' l'. l' \<notin> fst ` set (labels ?s) \<longrightarrow> conn0 ?s f' l' = 0"
  proof (intro allI impI)
    fix f' l' assume a: "l' \<notin> fst ` set (labels ?s)"
    have "fst ` set (labels ?s) = insert l (fst ` set (labels s))"
      using keys by (metis (no_types) insert_absorb list.set_map set_append list.simps(15) Un_insert_right sup_bot.right_neutral empty_set)
    with a have "l' \<noteq> l" "l' \<notin> fst ` set (labels s)" by auto
    then show "conn0 ?s f' l' = 0"
      using assms by (simp add: conn0_learn markov_inv_def)
  qed
  show ?thesis unfolding markov_inv_def using 0 1 2 3 4 5 by blast
qed

lemma markov_inv_learn_all: "markov_inv s \<Longrightarrow> markov_inv (markov_learn_all h s)"
  by (induction h s rule: markov_learn_all.induct) (simp_all add: markov_inv_learn)

lemma markov_inv_after: "markov_inv (markov_after h)"
  by (simp add: markov_after_def markov_inv_learn_all markov_inv_init)

lemma keys_labels_learn_all:
  "fst ` set (labels (markov_learn_all h s)) = fst ` set (labels s) \<union> snd ` set h"
proof (induction h s rule: markov_learn_all.induct)
  case (1 s)
  show ?case by simp
next
  case (2 xi labeli rest s)
  have "set (map fst (labels (markov_learn xi labeli s))) = insert labeli (set (map fst (labels s)))"
    by (auto simp: markov_learn_def keys_count_up)
  then show ?case using 2 by auto
qed

lemma keys_features_learn_all:
  "fst ` set (features (markov_learn_all h s)) = fst ` set (features s) \<union> fst ` set h"
proof (induction h s rule: markov_learn_all.induct)
  case (1 s)
  show ?case by simp
next
  case (2 xi labeli rest s)
  have "set (map fst (features (markov_learn xi labeli s))) = insert xi (set (map fst (features s)))"
    by (auto simp: markov_learn_def keys_count_up)
  then show ?case using 2 by auto
qed

lemma prob_label_ok:
  assumes "markov_inv s" "map_of (features s) f = Some nf" "l \<in> fst ` set (labels s)"
  shows "markov_prob_label s f nf l = Inr (bayes s f nf l)"
proof -
  from assms(3) obtain nl where nl: "map_of (labels s) l = Some nl"
    by (metis domD dom_map_of_conv_image_fst)
  have "0 < nl" using assms(1) nl unfolding markov_inv_def by blast
  moreover have "0 < nf" "nf \<le> ntotal_connections s"
    using assms(1,2) unfolding markov_inv_def by blast+
  ultimately show ?thesis
    by (simp add: markov_prob_label_def bayes_def conn0_def nl Let_def)
qed

lemma prob_loop_ok:
  assumes "markov_inv s" "map_of (features s) f = Some nf" "set ls \<subseteq> fst ` set (labels s)"
  shows "markov_prob_loop s f nf ls acc =
           Inr (fold (\<lambda>l acc. AList.update l (bayes s f nf l) acc) ls acc)"
  using assms(3)
  by (induction ls arbitrary: acc) (simp_all add: prob_label_ok[OF assms(1,2)])

lemma fold_update_keys:
  "distinct ls \<Longrightarrow> set ls \<inter> fst ` set acc = {} \<Longrightarrow>
   map fst (fold (\<lambda>l acc. AList.update l (g l) acc) ls acc) = map fst acc @ ls"
proof (induction ls arbitrary: acc)
  case Nil
  show ?case by simp
next
  case (Cons a ls)
  have "map fst (AList.update a (g a) acc) = map fst acc @ [a]"
    using Cons.prems by (simp add: update_keys)
  moreover have "set ls \<inter> fst ` set (AList.update a (g a) acc) = {}"
    using Cons.prems by (auto simp: dom_update)
  ultimately show ?case using Cons by simp
qed

lemma fold_update_vals:
  "distinct ls \<Longrightarrow> set ls \<inter> fst ` set acc = {} \<Longrightarrow>
   map snd (fold (\<lambda>l acc. AList.update l (g l) acc) ls acc) = map snd acc @ map g ls"
proof (induction ls arbitrary: acc)
  case Nil
  show ?case by simp
next
  case (Cons a ls)
  have "a \<notin> fst ` set acc" using Cons.prems by auto
  then have u: "AList.update a (g a) acc = acc @ [(a, g a)]"
    by (induction acc) auto
  moreover have "set ls \<inter> fst ` set (AList.update a (g a) acc) = {}"
    using Cons.prems by (auto simp: dom_update)
  ultimately show ?case using Cons by simp
qed

lemma prob_one_ok:
  assumes "markov_inv s" "map_of (features s) f = Some nf"
  shows "markov_prob_one s f =
           Inr (fold (\<lambda>l acc. AList.update l (bayes s f nf l) acc) (map fst (labels s)) [])"
  using assms by (simp add: markov_prob_one_def prob_loop_ok)

lemma bayes_simp:
  assumes "markov_inv s" "map_of (features s) f = Some nf" "l \<in> fst ` set (labels s)"
  shows "bayes s f nf l = real_of_int (conn0 s f l) / real_of_int nf"
proof -
  from assms(3) obtain nl where nl: "map_of (labels s) l = Some nl"
    by (metis domD dom_map_of_conv_image_fst)
  have "0 < nl" using assms(1) nl unfolding markov_inv_def by blast
  moreover have "0 < nf" "nf \<le> ntotal_connections s"
    using assms(1,2) unfolding markov_inv_def by blast+
  ultimately show ?thesis
    by (simp add: bayes_def nl)
qed

lemma sum_list_bayes:
  assumes "markov_inv s" "map_of (features s) f = Some nf" "set ls \<subseteq> fst ` set (labels s)"
  shows "(\<Sum>l\<leftarrow>ls. bayes s f nf l) = real_of_int (\<Sum>l\<leftarrow>ls. conn0 s f l) / real_of_int nf"
  using assms(3)
  by (induction ls) (simp_all add: bayes_simp[OF assms(1,2)] add_divide_distrib)

lemma markov_prob_sum:
  assumes "markov_inv s" "map_of (features s) f = Some nf"
  shows "\<exists>probs. markov_prob_one s f = Inr probs \<and> sum_list (map snd probs) = 1"
proof -
  let ?ks = "map fst (labels s)"
  let ?probs = "fold (\<lambda>l acc. AList.update l (bayes s f nf l) acc) ?ks []"
  have d: "distinct ?ks" using assms(1) by (simp add: markov_inv_def)
  have "map snd ?probs = map (bayes s f nf) ?ks"
    using fold_update_vals[OF d, of "[]" "bayes s f nf"] by simp
  then have "sum_list (map snd ?probs) = (\<Sum>l\<leftarrow>?ks. bayes s f nf l)"
    by simp
  also have "\<dots> = real_of_int (\<Sum>l\<leftarrow>?ks. conn0 s f l) / real_of_int nf"
    using sum_list_bayes[OF assms, of ?ks] by simp
  also have "(\<Sum>l\<leftarrow>?ks. conn0 s f l) = feat0 s f"
    using assms(1) by (simp add: markov_inv_def)
  also have "feat0 s f = nf" using assms(2) by (simp add: feat0_def)
  also have "real_of_int nf / real_of_int nf = 1"
    using assms unfolding markov_inv_def by fastforce
  finally show ?thesis using prob_one_ok[OF assms] by simp
qed


lemma markov_after_example:
  "markov_after markov_example =
     \<lparr>ntotal_connections = 4, features = [([0], 3), ([1], 1)],
      labels = [(''a'', 2), (''b'', 2)],
      connections = [(([0], ''a''), 2), (([1], ''b''), 1), (([0], ''b''), 1)]\<rparr>"
  by (simp add: markov_example_def markov_after_def markov_learn_def markov_init_def count_up_def)

text \<open>
  Claim C1. For every state of the classifier, hence after every training history, a
  query whose feature tuple is not a key of \<^verbatim>\<open>self.features\<close> makes \<^verbatim>\<open>_prob_one\<close>
  return the empty dictionary: the result is a value, not an exception, no division is
  reached, and, \<^verbatim>\<open>_prob_one\<close> being a function of the state, the state is what it
  was. The second half states the same for a feature that no training pair carried.
\<close>

theorem markov_prob_one_unseen:
  "(map_of (features s) feature = None \<longrightarrow> markov_prob_one s feature = Inr []) \<and>
   (feature \<notin> fst ` set history \<longrightarrow> markov_prob_one (markov_after history) feature = Inr [])"
proof -
  have "map_of (features (markov_after history)) feature = None" if "feature \<notin> fst ` set history"
    using that keys_features_learn_all[of history markov_init]
    by (simp add: markov_after_def markov_init_def map_of_eq_None_iff)
  then show ?thesis by (simp add: markov_prob_one_def)
qed

theorem markov_prob_one_unseen_witness:
  "map_of (features (markov_after markov_example)) [2] = None \<and>
   [2] \<notin> fst ` set markov_example \<and>
   markov_prob_one (markov_after markov_example) [2] = Inr []"
proof -
  have a: "map_of (features (markov_after markov_example)) [2] = None"
    by (simp add: markov_after_example)
  have b: "[2] \<notin> fst ` set markov_example"
    by (simp add: markov_example_def)
  show ?thesis
    using a b markov_prob_one_unseen[of "markov_after markov_example" "[2]" markov_example]
    by simp
qed

text \<open>
  Claim C2. After every training history, for a query feature that is a key of
  \<^verbatim>\<open>self.features\<close> with count \<open>nf\<close>, \<^verbatim>\<open>_prob_one\<close> returns a dictionary whose keys
  are exactly the labels observed so far (the keys of \<^verbatim>\<open>self.labels\<close>, which are the
  labels of the history), and whose value at a label with count \<open>nl\<close> is
  \<open>(joint / nl) * (nl / total) / (nf / total)\<close>, the joint count being \<open>0\<close> when the
  pair of feature and label was never observed. None of the divisors is zero.
\<close>

theorem markov_prob_one_bayes:
  assumes "map_of (features (markov_after history)) feature = Some nf"
  shows "\<exists>probs. markov_prob_one (markov_after history) feature = Inr probs \<and>
           distinct (map fst probs) \<and>
           fst ` set probs = fst ` set (labels (markov_after history)) \<and>
           fst ` set probs = snd ` set history \<and>
           (\<forall>label \<in> snd ` set history. \<exists>nl.
              map_of (labels (markov_after history)) label = Some nl \<and> nl \<noteq> 0 \<and>
              ntotal_connections (markov_after history) \<noteq> 0 \<and> nf \<noteq> 0 \<and>
              map_of probs label = Some
                ((real_of_int (case map_of (connections (markov_after history)) (feature, label) of
                                 Some n \<Rightarrow> n | None \<Rightarrow> 0) / real_of_int nl)
                 * (real_of_int nl / real_of_int (ntotal_connections (markov_after history)))
                 / (real_of_int nf / real_of_int (ntotal_connections (markov_after history)))))"
proof -
  let ?s = "markov_after history"
  let ?ks = "map fst (labels ?s)"
  let ?probs = "fold (\<lambda>l acc. AList.update l (bayes ?s feature nf l) acc) ?ks []"
  have inv: "markov_inv ?s" by (rule markov_inv_after)
  have d: "distinct ?ks" using inv by (simp add: markov_inv_def)
  have res: "markov_prob_one ?s feature = Inr ?probs"
    using prob_one_ok[OF inv assms] .
  have keys: "map fst ?probs = ?ks"
    using fold_update_keys[OF d, of "[]" "bayes ?s feature nf"] by simp
  have vals: "map snd ?probs = map (bayes ?s feature nf) ?ks"
    using fold_update_vals[OF d, of "[]" "bayes ?s feature nf"] by simp
  have hist: "fst ` set (labels ?s) = snd ` set history"
    using keys_labels_learn_all[of history markov_init]
    by (simp add: markov_after_def markov_init_def)
  have k1: "fst ` set ?probs = fst ` set (labels ?s)"
    using keys by (metis list.set_map)
  have zipped: "?probs = zip ?ks (map (bayes ?s feature nf) ?ks)"
    using keys vals by (metis zip_map_fst_snd)
  have nf: "0 < nf" "nf \<le> ntotal_connections ?s"
    using inv assms unfolding markov_inv_def by blast+
  have each: "\<exists>nl. map_of (labels ?s) label = Some nl \<and> nl \<noteq> 0 \<and>
              ntotal_connections ?s \<noteq> 0 \<and> nf \<noteq> 0 \<and>
              map_of ?probs label = Some
                ((real_of_int (case map_of (connections ?s) (feature, label) of
                                 Some n \<Rightarrow> n | None \<Rightarrow> 0) / real_of_int nl)
                 * (real_of_int nl / real_of_int (ntotal_connections ?s))
                 / (real_of_int nf / real_of_int (ntotal_connections ?s)))"
    if "label \<in> snd ` set history" for label
  proof -
    have mem: "label \<in> set ?ks" using that hist by simp
    then obtain nl where nl: "map_of (labels ?s) label = Some nl"
      by (metis domD dom_map_of_conv_image_fst list.set_map)
    have "0 < nl" using inv nl unfolding markov_inv_def by blast
    moreover have "map_of ?probs label = Some (bayes ?s feature nf label)"
      unfolding zipped using mem by (subst map_of_zip_map) simp
    ultimately show ?thesis using nl nf by (simp add: bayes_def conn0_def)
  qed
  show ?thesis
    using res keys d k1 hist each by (intro exI[of _ ?probs]) (simp only: simp_thms, blast)
qed

theorem markov_prob_one_bayes_witness:
  "map_of (features (markov_after markov_example)) [0] = Some 3 \<and>
   (\<exists>probs. markov_prob_one (markov_after markov_example) [0] = Inr probs \<and>
           distinct (map fst probs) \<and>
           fst ` set probs = fst ` set (labels (markov_after markov_example)) \<and>
           fst ` set probs = snd ` set markov_example \<and>
           (\<forall>label \<in> snd ` set markov_example. \<exists>nl.
              map_of (labels (markov_after markov_example)) label = Some nl \<and> nl \<noteq> 0 \<and>
              ntotal_connections (markov_after markov_example) \<noteq> 0 \<and> (3::int) \<noteq> 0 \<and>
              map_of probs label = Some
                ((real_of_int (case map_of (connections (markov_after markov_example)) ([0], label) of
                                 Some n \<Rightarrow> n | None \<Rightarrow> 0) / real_of_int nl)
                 * (real_of_int nl / real_of_int (ntotal_connections (markov_after markov_example)))
                 / (real_of_int 3 / real_of_int (ntotal_connections (markov_after markov_example))))))"
proof -
  have a: "map_of (features (markov_after markov_example)) [0] = Some 3"
    by (simp add: markov_after_example)
  show ?thesis
    by (rule conjI[OF a markov_prob_one_bayes[OF a]])
qed

lemma markov_after_rounding_example:
  "markov_after markov_rounding_example =
     \<lparr>ntotal_connections = 5, features = [([0], 4), ([1], 1)],
      labels = [(''a'', 3), (''b'', 2)],
      connections = [(([0], ''a''), 3), (([0], ''b''), 1), (([1], ''b''), 1)]\<rparr>"
  by (simp add: markov_rounding_example_def markov_after_def markov_learn_def markov_init_def
      count_up_def)

lemma double_quot_3_3: "double_quot 3 3 = Inr (Finite 1)"
  by code_simp

lemma double_quot_1_2: "double_quot 1 2 = Inr (Finite (1 / 2))"
  by code_simp

lemma double_quot_3_5: "double_quot 3 5 = Inr (Finite (5404319552844595 / 9007199254740992))"
  by code_simp

lemma double_quot_2_5: "double_quot 2 5 = Inr (Finite (3602879701896397 / 9007199254740992))"
  by code_simp

lemma double_quot_4_5: "double_quot 4 5 = Inr (Finite (3602879701896397 / 4503599627370496))"
  by code_simp

lemma double_prob_a:
  "double_div (double_mul (double_mul (Finite 1) (Finite 1))
                 (Finite (5404319552844595 / 9007199254740992)))
     (Finite (3602879701896397 / 4503599627370496)) =
   Inr (Finite (6755399441055743 / 9007199254740992))"
  by code_simp

lemma double_prob_b:
  "double_div (double_mul (double_mul (Finite 1) (Finite (1 / 2)))
                 (Finite (3602879701896397 / 9007199254740992)))
     (Finite (3602879701896397 / 4503599627370496)) =
   Inr (Finite (1 / 4))"
  by code_simp

lemma markov_prob_one_double_example:
  "markov_prob_one_double (markov_after markov_rounding_example) [0] =
     Inr [(''a'', Finite (6755399441055743 / 9007199254740992)), (''b'', Finite (1 / 4))]"
  by (simp add: markov_after_rounding_example markov_prob_one_double_def
      markov_prob_label_double_def double_quot_3_3 double_quot_1_2 double_quot_3_5
      double_quot_2_5 double_quot_4_5 double_prob_a double_prob_b
      del: double_mul.simps double_div.simps)

lemma double_sum_example:
  "double_sum [Finite (6755399441055743 / 9007199254740992), Finite (1 / 4)] =
     Finite (9007199254740991 / 9007199254740992)"
  "double_sum [Finite (1 / 4), Finite (6755399441055743 / 9007199254740992)] =
     Finite (9007199254740991 / 9007199254740992)"
  by code_simp+

text \<open>
  Claim C3. There are a training history and a query feature that is a key of
  \<^verbatim>\<open>self.features\<close> for which the values of the dictionary returned by \<^verbatim>\<open>_prob_one\<close>
  do not sum to \<open>1\<close>. After three observations of feature \<open>(0,)\<close> with label \<open>a\<close>,
  one with label \<open>b\<close>, and one of feature \<open>(1,)\<close> with label \<open>b\<close>, the query \<open>(0,)\<close>
  returns the doubles \<open>0.7499999999999999\<close> for \<open>a\<close> and \<open>0.25\<close> for \<open>b\<close>. They are
  the only two values, their exact sum is \<open>1 - 2\<^bsup>-53\<^esup>\<close>, and adding them as floats, in
  either order, gives that same double, \<open>0.9999999999999999\<close>. The result is returned
  as computed; nothing renormalises it. (In exact arithmetic the values of every such
  result sum to \<open>1\<close>, lemma \<open>markov_prob_sum\<close>: the difference is one of rounding.)
\<close>

theorem markov_prob_one_not_normalized:
  "\<exists>(history :: (int list \<times> string) list) feature nf probs u v.
      map_of (features (markov_after history)) feature = Some nf \<and>
      markov_prob_one_double (markov_after history) feature = Inr probs \<and>
      map snd probs = [Finite u, Finite v] \<and>
      u + v \<noteq> 1 \<and>
      double_sum (map snd probs) \<noteq> Finite 1 \<and>
      double_sum (rev (map snd probs)) \<noteq> Finite 1"
proof -
  let ?probs = "[(''a'', Finite (6755399441055743 / 9007199254740992)), (''b'', Finite (1 / 4))]"
  have a: "map_of (features (markov_after markov_rounding_example)) [0] = Some 4"
    by (simp add: markov_after_rounding_example)
  have b: "map snd ?probs = [Finite (6755399441055743 / 9007199254740992), Finite (1 / 4)]"
    by simp
  have c: "(6755399441055743 / 9007199254740992 :: rat) + 1 / 4 \<noteq> 1"
    by simp
  have d: "double_sum (map snd ?probs) \<noteq> Finite 1" "double_sum (rev (map snd ?probs)) \<noteq> Finite 1"
    by (simp_all add: double_sum_example)
  show ?thesis
    by (rule exI[of _ markov_rounding_example], rule exI[of _ "[0]"], rule exI[of _ 4],
        rule exI[of _ ?probs], rule exI[of _ "6755399441055743 / 9007199254740992"],
        rule exI[of _ "1 / 4"])
       (intro conjI a markov_prob_one_double_example b c d)
qed
section \<open>Properties of PerceptronClassifier\<close>

lemma izip_stretched_row_order:
  "(\<forall>ls. lbls = Many ls \<longrightarrow> length ls = length x) \<Longrightarrow>
   izip_stretched x lbls = pairs_in_row_order x lbls"
  by (cases lbls) (auto simp: pairs_in_row_order_def stretch_def)

lemma dot_commute: "dot xs ys = dot ys xs"
proof -
  have "(\<Sum>(a, b)\<leftarrow>zip xs ys. a * b) = (\<Sum>(a, b)\<leftarrow>zip ys xs. a * b)"
    by (induction xs ys rule: list_induct2') (simp_all add: mult.commute)
  then show ?thesis by (simp add: dot_def)
qed

lemma update_weights_fold:
  "\<forall>j \<in> set js. j < length w \<and> j < length xi \<Longrightarrow>
   update_weights rate xi js w = (None, fold (\<lambda>j w. w[j := w ! j + rate * xi ! j]) js w)"
  by (induction js arbitrary: w) simp_all

lemma fold_update_length:
  "length (fold (\<lambda>j w. w[j := g j (w ! j)]) js w) = length w"
  by (induction js arbitrary: w) simp_all

lemma fold_update_nth:
  "distinct js \<Longrightarrow> i < length w \<Longrightarrow>
   fold (\<lambda>j w. w[j := g j (w ! j)]) js w ! i = (if i \<in> set js then g i (w ! i) else w ! i)"
proof (induction js arbitrary: w)
  case Nil
  show ?case by simp
next
  case (Cons a js)
  show ?case
  proof (cases "i = a")
    case True
    then show ?thesis using Cons by simp
  next
    case False
    then show ?thesis using Cons by simp
  qed
qed

lemma update_weights_all:
  assumes "length w = n" "length xi = n"
  shows "update_weights rate xi [0..<n] w = (None, map (\<lambda>j. w ! j + rate * xi ! j) [0..<n])"
proof -
  note len = fold_update_length[where g = "\<lambda>j v. v + rate * xi ! j"]
  note nth = fold_update_nth[where g = "\<lambda>j v. v + rate * xi ! j"]
  have "fold (\<lambda>j w. w[j := w ! j + rate * xi ! j]) [0..<n] w =
        map (\<lambda>j. w ! j + rate * xi ! j) [0..<n]"
    using assms by (intro nth_equalityI) (simp_all add: len nth)
  then show ?thesis
    using assms by (simp add: update_weights_fold)
qed

lemma perceptron_train_one_spec:
  assumes "length (weights s) = perceptron_input_dim s" "length (fst p) = perceptron_input_dim s"
  shows "perceptron_train_one s p = (None, perceptron_update_spec s p)"
  using assms
  by (cases p)
     (simp add: perceptron_train_one_def perceptron_update_spec_def perceptron_label_one_def
        np_dot_def Let_def update_weights_all dot_commute)

lemma perceptron_update_spec_keeps:
  "length (weights (perceptron_update_spec s p)) = perceptron_input_dim s"
  "perceptron_input_dim (perceptron_update_spec s p) = perceptron_input_dim s"
  by (cases p; simp add: perceptron_update_spec_def Let_def)+

lemma perceptron_train_loop_spec:
  assumes "length (weights s) = perceptron_input_dim s"
    and "\<forall>p \<in> set ps. length (fst p) = perceptron_input_dim s"
  shows "perceptron_train_loop s ps = (None, foldl perceptron_update_spec s ps)"
  using assms
proof (induction ps arbitrary: s)
  case Nil
  show ?case by simp
next
  case (Cons p ps)
  have one: "perceptron_train_one s p = (None, perceptron_update_spec s p)"
    using Cons.prems by (simp add: perceptron_train_one_spec)
  have "perceptron_train_loop (perceptron_update_spec s p) ps =
          (None, foldl perceptron_update_spec (perceptron_update_spec s p) ps)"
    using Cons.prems by (intro Cons.IH) (simp_all add: perceptron_update_spec_keeps)
  with one show ?case by simp
qed

lemma pairs_rows:
  "p \<in> set (pairs_in_row_order x lbls) \<Longrightarrow> fst p \<in> set x"
  by (cases lbls; cases p) (auto simp: pairs_in_row_order_def dest: set_zip_leftD)

lemma perceptron_train_raw_spec:
  assumes rows: "\<forall>row \<in> set x. length row = perceptron_input_dim s"
    and w: "weights s = [] \<or> length (weights s) = perceptron_input_dim s"
    and ls: "\<forall>ls. lbls = Many ls \<longrightarrow> length ls = length x"
  shows "perceptron_train_raw s x lbls = (None, perceptron_train_spec s x lbls)"
proof -
  let ?s0 = "if weights s = [] then s\<lparr>weights := replicate (perceptron_input_dim s) 1\<rparr> else s"
  have a: "length (weights ?s0) = perceptron_input_dim ?s0"
    using w by auto
  have b: "\<forall>p \<in> set (pairs_in_row_order x lbls). length (fst p) = perceptron_input_dim ?s0"
    using rows pairs_rows[of _ x lbls] by auto
  show ?thesis
    using perceptron_train_loop_spec[OF a b] izip_stretched_row_order[OF ls]
    by (simp add: perceptron_train_raw_def perceptron_train_spec_def)
qed

lemma perceptron_train_spec_length:
  assumes "weights s = [] \<or> length (weights s) = perceptron_input_dim s"
  shows "length (weights (perceptron_train_spec s x lbls)) = perceptron_input_dim s"
proof -
  have "length (weights (foldl perceptron_update_spec t ps)) = perceptron_input_dim t \<and>
        perceptron_input_dim (foldl perceptron_update_spec t ps) = perceptron_input_dim t"
    if "length (weights t) = perceptron_input_dim t" for t ps
    using that
    by (induction ps arbitrary: t) (simp_all add: perceptron_update_spec_keeps)
  then show ?thesis
    using assms by (auto simp: perceptron_train_spec_def)
qed

lemma perceptron_example_forward:
  "perceptron_train_raw (perceptron_init 1) perceptron_example_rows (Single (- 1)) =
     (None, \<lparr>weights = [- 5], offset_weight = - (1 / 5), learning_rate = 1 / 10,
             perceptron_input_dim = 1\<rparr>)"
  by (simp add: perceptron_train_raw_def perceptron_init_def perceptron_example_rows_def
      perceptron_train_one_def perceptron_label_one_def np_dot_def dot_def)

lemma perceptron_example_backward:
  "perceptron_train_raw (perceptron_init 1) (rev perceptron_example_rows) (Single (- 1)) =
     (None, \<lparr>weights = [- (26 / 5)], offset_weight = - (2 / 5), learning_rate = 1 / 10,
             perceptron_input_dim = 1\<rparr>)"
  by (simp add: perceptron_train_raw_def perceptron_init_def perceptron_example_rows_def
      perceptron_train_one_def perceptron_label_one_def np_dot_def dot_def)

text \<open>
  Claim C4. A call of \<^verbatim>\<open>_train\<close> on rows of the input dimension (and, for a sequence
  of labels, one label per row) raises nothing and leaves the state that the updates of
  the specification give: the weights are set to all ones when they are still empty,
  which after a call with a positive input dimension they no longer are; then, pair by
  pair in row order, prediction, rate, the new weight at every index and the new bias
  are computed from the state the previous pair left. The order of the rows is the
  order of the updates: there is a batch whose rows, permuted, end in other weights.
\<close>

theorem perceptron_train_online:
  "((\<forall>row \<in> set x. length row = perceptron_input_dim s) \<and>
    (weights s = [] \<or> length (weights s) = perceptron_input_dim s) \<and>
    (\<forall>ls. lbls = Many ls \<longrightarrow> length ls = length x) \<longrightarrow>
      perceptron_train_raw s x lbls = (None, perceptron_train_spec s x lbls) \<and>
      length (weights (perceptron_train_spec s x lbls)) = perceptron_input_dim s) \<and>
   (\<exists>s0 rows rows' l.
      mset rows = mset rows' \<and>
      weights (snd (perceptron_train_raw s0 rows (Single l))) \<noteq>
      weights (snd (perceptron_train_raw s0 rows' (Single l))))"
proof (intro conjI impI)
  assume h: "(\<forall>row \<in> set x. length row = perceptron_input_dim s) \<and>
    (weights s = [] \<or> length (weights s) = perceptron_input_dim s) \<and>
    (\<forall>ls. lbls = Many ls \<longrightarrow> length ls = length x)"
  then show "perceptron_train_raw s x lbls = (None, perceptron_train_spec s x lbls)"
    by (intro perceptron_train_raw_spec) simp_all
  from h show "length (weights (perceptron_train_spec s x lbls)) = perceptron_input_dim s"
    by (intro perceptron_train_spec_length) simp
next
  have "mset perceptron_example_rows = mset (rev perceptron_example_rows)"
    by simp
  moreover have
    "weights (snd (perceptron_train_raw (perceptron_init 1) perceptron_example_rows (Single (- 1)))) \<noteq>
     weights (snd (perceptron_train_raw (perceptron_init 1) (rev perceptron_example_rows) (Single (- 1))))"
    unfolding perceptron_example_forward perceptron_example_backward by simp
  ultimately show "\<exists>s0 rows rows' l.
      mset rows = mset rows' \<and>
      weights (snd (perceptron_train_raw s0 rows (Single l))) \<noteq>
      weights (snd (perceptron_train_raw s0 rows' (Single l)))"
    by blast
qed

theorem perceptron_train_online_witness:
  "perceptron_train_raw (perceptron_init 1) perceptron_example_rows (Single (- 1)) =
     (None, perceptron_train_spec (perceptron_init 1) perceptron_example_rows (Single (- 1))) \<and>
   weights (perceptron_train_spec (perceptron_init 1) perceptron_example_rows (Single (- 1))) = [- 5]"
proof -
  have h: "(\<forall>row \<in> set perceptron_example_rows. length row = perceptron_input_dim (perceptron_init 1)) \<and>
    (weights (perceptron_init 1) = [] \<or>
       length (weights (perceptron_init 1)) = perceptron_input_dim (perceptron_init 1)) \<and>
    (\<forall>ls. (Single (- 1) :: real labels_arg) = Many ls \<longrightarrow> length ls = length perceptron_example_rows)"
    by (simp add: perceptron_example_rows_def perceptron_init_def)
  have eq: "perceptron_train_raw (perceptron_init 1) perceptron_example_rows (Single (- 1)) =
     (None, perceptron_train_spec (perceptron_init 1) perceptron_example_rows (Single (- 1)))"
    using perceptron_train_online[of perceptron_example_rows "perceptron_init 1" "Single (- 1)"] h
    by blast
  from eq[unfolded perceptron_example_forward]
  have "weights (perceptron_train_spec (perceptron_init 1) perceptron_example_rows (Single (- 1))) = [- 5]"
    by (metis perceptron.select_convs(1) prod.inject)
  with eq show ?thesis by (rule conjI)
qed

section \<open>Properties of DiscreteHopfieldClassifier\<close>












lemma zero_step_commute:
  "(w[i := (w ! i)[i := 0 :: real]])[j := (w[i := (w ! i)[i := 0]] ! j)[j := 0]] =
   (w[j := (w ! j)[j := 0]])[i := (w[j := (w ! j)[j := 0]] ! i)[i := 0]]"
  by (cases "i = j") (auto simp: list_update_swap nth_list_update)

lemma zero_step_idem:
  "(w[i := (w ! i)[i := 0 :: real]])[i := (w[i := (w ! i)[i := 0]] ! i)[i := 0]] =
   w[i := (w ! i)[i := 0]]"
  by (cases "i < length w") (simp_all add: not_less list_update_beyond)

lemma zero_fold_commute:
  "fold (\<lambda>i w. w[i := (w ! i)[i := 0 :: real]]) js (w[j := (w ! j)[j := 0]]) =
   (fold (\<lambda>i w. w[i := (w ! i)[i := 0]]) js w)
     [j := (fold (\<lambda>i w. w[i := (w ! i)[i := 0]]) js w ! j)[j := 0]]"
proof (induction js arbitrary: w)
  case Nil
  show ?case by simp
next
  case (Cons a js)
  show ?case
    using Cons.IH[of "w[a := (w ! a)[a := 0]]"] zero_step_commute[of w j a] by simp
qed

lemma zero_fold_absorb:
  "j \<in> set js \<Longrightarrow>
   (fold (\<lambda>i w. w[i := (w ! i)[i := 0 :: real]]) js w)
     [j := (fold (\<lambda>i w. w[i := (w ! i)[i := 0]]) js w ! j)[j := 0]] =
   fold (\<lambda>i w. w[i := (w ! i)[i := 0]]) js w"
proof (induction js arbitrary: w)
  case Nil
  then show ?case by simp
next
  case (Cons a js)
  show ?case
  proof (cases "j = a")
    case True
    then show ?thesis
      using zero_fold_commute[where js = js and j = a and w = "w[a := (w ! a)[a := 0]]", symmetric]
        zero_step_idem[of w a]
      by simp
  next
    case False
    then show ?thesis using Cons by simp
  qed
qed

lemma zero_fold_twice:
  "set js \<subseteq> set is \<Longrightarrow>
   fold (\<lambda>i w. w[i := (w ! i)[i := 0 :: real]]) js
     (fold (\<lambda>i w. w[i := (w ! i)[i := 0]]) is w) =
   fold (\<lambda>i w. w[i := (w ! i)[i := 0]]) is w"
  by (induction js) (simp_all add: zero_fold_absorb)

lemma zero_fold_shape:
  "length (fold (\<lambda>i w. w[i := (w ! i)[i := 0 :: real]]) js w) = length w \<and>
   (\<forall>a. length (fold (\<lambda>i w. w[i := (w ! i)[i := 0]]) js w ! a) = length (w ! a))"
proof (induction js arbitrary: w)
  case Nil
  show ?case by simp
next
  case (Cons j js)
  have "length (w[j := (w ! j)[j := 0]] ! a) = length (w ! a)" for a
    by (cases "a = j"; cases "j < length w") (simp_all add: not_less list_update_beyond)
  then show ?case using Cons[of "w[j := (w ! j)[j := 0]]"] by simp
qed

lemma zero_diagonal_fold:
  "zero_diagonal js w = (None, w') \<longleftrightarrow>
   (\<forall>j \<in> set js. j < length w \<and> j < length (w ! j)) \<and>
   w' = fold (\<lambda>i w. w[i := (w ! i)[i := 0]]) js w"
proof (induction js arbitrary: w)
  case Nil
  show ?case by auto
next
  case (Cons j js)
  have sh: "length (w[j := (w ! j)[j := 0]]) = length w"
    "\<And>a. length (w[j := (w ! j)[j := 0]] ! a) = length (w ! a)"
    using zero_fold_shape[of "[j]" w] by simp_all
  show ?case
    using Cons[of "w[j := (w ! j)[j := 0]]"] sh by auto
qed

lemma zero_diagonal_idem:
  assumes "zero_diagonal js w = (None, w')"
  shows "zero_diagonal js w' = (None, w')"
proof -
  from assms have a: "\<forall>j \<in> set js. j < length w \<and> j < length (w ! j)"
    and b: "w' = fold (\<lambda>i w. w[i := (w ! i)[i := 0]]) js w"
    by (simp_all add: zero_diagonal_fold)
  have "\<forall>j \<in> set js. j < length w' \<and> j < length (w' ! j)"
    using a zero_fold_shape[of js w] unfolding b by simp
  moreover have "w' = fold (\<lambda>i w. w[i := (w ! i)[i := 0]]) js w'"
    unfolding b using zero_fold_twice[of js js w] by simp
  ultimately show ?thesis by (simp add: zero_diagonal_fold)
qed













section \<open>Properties of KMeansClassifier\<close>

lemma argmin_from_props:
  assumes "length pre = i" "best < i" "least = pre ! best"
    and "\<forall>j < i. least \<le> pre ! j" "\<forall>j < best. least < pre ! j"
  shows "argmin_from best least i vs < length (pre @ vs) \<and>
         (\<forall>j < length (pre @ vs).
            (pre @ vs) ! argmin_from best least i vs \<le> (pre @ vs) ! j) \<and>
         (\<forall>j < argmin_from best least i vs.
            (pre @ vs) ! argmin_from best least i vs < (pre @ vs) ! j)"
  using assms
proof (induction vs arbitrary: pre i best least)
  case Nil
  then show ?case by simp
next
  case (Cons v vs)
  show ?case
  proof (cases "v < least")
    case True
    have "argmin_from i v (Suc i) vs < length ((pre @ [v]) @ vs) \<and>
         (\<forall>j < length ((pre @ [v]) @ vs).
            ((pre @ [v]) @ vs) ! argmin_from i v (Suc i) vs \<le> ((pre @ [v]) @ vs) ! j) \<and>
         (\<forall>j < argmin_from i v (Suc i) vs.
            ((pre @ [v]) @ vs) ! argmin_from i v (Suc i) vs < ((pre @ [v]) @ vs) ! j)"
    proof (rule Cons.IH)
      show "length (pre @ [v]) = Suc i" using Cons.prems by simp
      show "i < Suc i" by simp
      show "v = (pre @ [v]) ! i" using Cons.prems(1) by (simp add: nth_append)
      show "\<forall>j < Suc i. v \<le> (pre @ [v]) ! j"
        using Cons.prems True by (auto simp: nth_append less_Suc_eq)
      show "\<forall>j < i. v < (pre @ [v]) ! j"
        using Cons.prems True by (auto simp: nth_append)
    qed
    with True show ?thesis by simp
  next
    case False
    have "argmin_from best least (Suc i) vs < length ((pre @ [v]) @ vs) \<and>
         (\<forall>j < length ((pre @ [v]) @ vs).
            ((pre @ [v]) @ vs) ! argmin_from best least (Suc i) vs \<le> ((pre @ [v]) @ vs) ! j) \<and>
         (\<forall>j < argmin_from best least (Suc i) vs.
            ((pre @ [v]) @ vs) ! argmin_from best least (Suc i) vs < ((pre @ [v]) @ vs) ! j)"
    proof (rule Cons.IH)
      show "length (pre @ [v]) = Suc i" using Cons.prems by simp
      show "best < Suc i" using Cons.prems by simp
      show "least = (pre @ [v]) ! best" using Cons.prems by (simp add: nth_append)
      show "\<forall>j < Suc i. least \<le> (pre @ [v]) ! j"
        using Cons.prems False by (auto simp: nth_append less_Suc_eq)
      show "\<forall>j < best. least < (pre @ [v]) ! j"
        using Cons.prems by (auto simp: nth_append)
    qed
    with False show ?thesis by simp
  qed
qed

lemma np_argmin_props:
  assumes "dists \<noteq> []"
  shows "\<exists>i. np_argmin dists = Inr i \<and> i < length dists \<and>
           (\<forall>j < length dists. dists ! i \<le> dists ! j) \<and> (\<forall>j < i. dists ! i < dists ! j)"
proof -
  from assms obtain v vs where d: "dists = v # vs" by (cases dists) auto
  have "argmin_from 0 v 1 vs < length ([v] @ vs) \<and>
         (\<forall>j < length ([v] @ vs). ([v] @ vs) ! argmin_from 0 v 1 vs \<le> ([v] @ vs) ! j) \<and>
         (\<forall>j < argmin_from 0 v 1 vs. ([v] @ vs) ! argmin_from 0 v 1 vs < ([v] @ vs) ! j)"
    by (rule argmin_from_props) simp_all
  then show ?thesis by (simp add: d np_argmin_def)
qed

lemma kmeans_dist_ok:
  "length x = length c \<Longrightarrow> kmeans_dist x c = Inr (np_norm (map2 (\<lambda>a b. a - b) x c))"
  by (simp add: kmeans_dist_def np_broadcast2_def)

lemma kmeans_nearest_props:
  assumes "cs \<noteq> []" "\<forall>c \<in> set cs. length c = length x"
  shows "\<exists>i. kmeans_nearest_centroid_idx x cs = Inr i \<and> i < length cs \<and>
           (\<forall>j < length cs. np_norm (map2 (\<lambda>a b. a - b) x (cs ! i)) \<le>
                            np_norm (map2 (\<lambda>a b. a - b) x (cs ! j))) \<and>
           (\<forall>j < i. np_norm (map2 (\<lambda>a b. a - b) x (cs ! i)) <
                     np_norm (map2 (\<lambda>a b. a - b) x (cs ! j)))"
proof -
  let ?ds = "map (\<lambda>c. np_norm (map2 (\<lambda>a b. a - b) x c)) cs"
  have "mapE (kmeans_dist x) cs = Inr ?ds"
    using assms(2) by (intro mapE_map) (simp add: kmeans_dist_ok)
  moreover from np_argmin_props[of ?ds] assms(1) obtain i where
    "np_argmin ?ds = Inr i" "i < length ?ds" "\<forall>j < length ?ds. ?ds ! i \<le> ?ds ! j"
    "\<forall>j < i. ?ds ! i < ?ds ! j"
    by auto
  ultimately show ?thesis
    by (intro exI[of _ i]) (simp add: kmeans_nearest_centroid_idx_def)
qed

lemma pos_add_all_Some:
  assumes "length v = d" "\<forall>x \<in> set rows. length x = d"
  shows "\<exists>v'. pos_add_all (Some v) rows = Some v' \<and> length v' = d \<and>
           (\<forall>k < d. v' ! k = v ! k + (\<Sum>x\<leftarrow>rows. x ! k))"
  using assms
proof (induction rows arbitrary: v)
  case Nil
  then show ?case by (simp add: pos_add_all_def)
next
  case (Cons a rows)
  have step: "pos_add_all (Some v) (a # rows) = pos_add_all (Some (map2 (\<lambda>a b. a + b) v a)) rows"
    by (simp add: pos_add_all_def)
  have la: "length a = d" using Cons.prems by simp
  have "length (map2 (\<lambda>a b. a + b) v a) = d" using Cons.prems la by simp
  from Cons.IH[OF this] Cons.prems obtain v' where
    v': "pos_add_all (Some (map2 (\<lambda>a b. a + b) v a)) rows = Some v'" "length v' = d"
      "\<forall>k < d. v' ! k = map2 (\<lambda>a b. a + b) v a ! k + (\<Sum>x\<leftarrow>rows. x ! k)"
    by auto
  have "\<forall>k < d. v' ! k = v ! k + (\<Sum>x\<leftarrow>a # rows. x ! k)"
    using v'(3) Cons.prems(1) la by simp
  with v'(1,2) step show ?case by simp
qed

lemma pos_add_all_None:
  assumes "rows \<noteq> []" "\<forall>x \<in> set rows. length x = d"
  shows "\<exists>v'. pos_add_all None rows = Some v' \<and> length v' = d \<and>
           (\<forall>k < d. v' ! k = (\<Sum>x\<leftarrow>rows. x ! k))"
proof -
  from assms(1) obtain a rest where r: "rows = a # rest" by (cases rows) auto
  have step: "pos_add_all None (a # rest) = pos_add_all (Some a) rest"
    by (simp add: pos_add_all_def)
  from pos_add_all_Some[of a d rest] assms(2) r obtain v' where
    "pos_add_all (Some a) rest = Some v'" "length v' = d"
    "\<forall>k < d. v' ! k = a ! k + (\<Sum>x\<leftarrow>rest. x ! k)"
    by auto
  then show ?thesis unfolding r step by simp
qed

lemma pos_add_ok:
  assumes "length x = d" "\<forall>v. pos = Some v \<longrightarrow> length v = d"
  shows "pos_add pos x =
           Inr (case pos of None \<Rightarrow> x | Some v \<Rightarrow> map2 (\<lambda>a b. a + b) v x)"
  using assms by (cases pos) (simp_all add: pos_add_def np_broadcast2_def)

lemma kmeans_assign_ok:
  assumes "cs \<noteq> []" "\<forall>c \<in> set cs. length c = d" "\<forall>x \<in> set xs. length x = d"
    and "length acc = length cs"
    and "\<forall>idx < length cs. \<forall>v. fst (acc ! idx) = Some v \<longrightarrow> length v = d"
  shows "kmeans_assign cs xs acc =
           Inr (map (\<lambda>idx. (pos_add_all (fst (acc ! idx)) (kmeans_assigned xs cs idx),
                             snd (acc ! idx) + length (kmeans_assigned xs cs idx)))
                  [0..<length cs])"
  using assms(3-5)
proof (induction xs arbitrary: acc)
  case Nil
  have "acc = map (\<lambda>idx. acc ! idx) [0..<length acc]" by (simp add: map_nth)
  then show ?case
    using Nil.prems by (simp add: kmeans_assigned_def pos_add_all_def)
next
  case (Cons x rest)
  have lx: "length x = d" using Cons.prems by simp
  from kmeans_nearest_props[of cs x] assms(1,2) lx obtain i where
    i: "kmeans_nearest_centroid_idx x cs = Inr i" "i < length cs"
    by auto
  let ?v = "case fst (acc ! i) of None \<Rightarrow> x | Some v \<Rightarrow> map2 (\<lambda>a b. a + b) v x"
  let ?acc1 = "acc[i := (Some ?v, snd (acc ! i) + 1)]"
  have inv: "\<forall>v. fst (acc ! i) = Some v \<longrightarrow> length v = d"
    using Cons.prems i by simp
  have pa: "pos_add (fst (acc ! i)) x = Inr ?v"
    using pos_add_ok[OF lx inv] .
  have lv: "length ?v = d"
    using inv lx by (cases "fst (acc ! i)") simp_all
  have unfold: "kmeans_assign cs (x # rest) acc = kmeans_assign cs rest ?acc1"
    using i pa Cons.prems by simp
  have ih: "kmeans_assign cs rest ?acc1 =
           Inr (map (\<lambda>idx. (pos_add_all (fst (?acc1 ! idx)) (kmeans_assigned rest cs idx),
                             snd (?acc1 ! idx) + length (kmeans_assigned rest cs idx)))
                  [0..<length cs])"
  proof (rule Cons.IH)
    show "\<forall>x \<in> set rest. length x = d" using Cons.prems by simp
    show "length ?acc1 = length cs" using Cons.prems by simp
    show "\<forall>idx < length cs. \<forall>v. fst (?acc1 ! idx) = Some v \<longrightarrow> length v = d"
    proof (intro allI impI)
      fix idx v assume idx: "idx < length cs" and v: "fst (?acc1 ! idx) = Some v"
      show "length v = d"
      proof (cases "idx = i")
        case True
        with v idx Cons.prems(2) have "v = ?v" by simp
        with lv show ?thesis by simp
      next
        case False
        with v have "fst (acc ! idx) = Some v" by simp
        with Cons.prems(3) idx show ?thesis by blast
      qed
    qed
  qed
  have each: "(pos_add_all (fst (?acc1 ! idx)) (kmeans_assigned rest cs idx),
               snd (?acc1 ! idx) + length (kmeans_assigned rest cs idx)) =
              (pos_add_all (fst (acc ! idx)) (kmeans_assigned (x # rest) cs idx),
               snd (acc ! idx) + length (kmeans_assigned (x # rest) cs idx))"
    if "idx < length cs" for idx
  proof (cases "idx = i")
    case True
    then show ?thesis
      using i Cons.prems(2) by (simp add: kmeans_assigned_def pos_add_all_def)
  next
    case False
    then show ?thesis
      using i by (simp add: kmeans_assigned_def)
  qed
  show ?case
    unfolding unfold ih using each by simp
qed

lemma kmeans_step_ok:
  assumes "cs \<noteq> []" "\<forall>c \<in> set cs. length c = d" "\<forall>x \<in> set dat. length x = d"
  shows "kmeans_step dat cs =
           Inr (map (\<lambda>idx. if kmeans_assigned dat cs idx = [] then cs ! idx
                            else vec_mean d (kmeans_assigned dat cs idx)) [0..<length cs])"
proof -
  let ?acc = "map (\<lambda>idx. (pos_add_all None (kmeans_assigned dat cs idx),
                           length (kmeans_assigned dat cs idx))) [0..<length cs]"
  have a: "kmeans_assign cs dat (replicate (length cs) (None, 0)) = Inr ?acc"
    using kmeans_assign_ok[OF assms, of "replicate (length cs) (None, 0)"] by simp
  have new: "kmeans_new_centroid cs idx (pos_add_all None (kmeans_assigned dat cs idx),
                                        length (kmeans_assigned dat cs idx)) =
             (if kmeans_assigned dat cs idx = [] then cs ! idx
              else vec_mean d (kmeans_assigned dat cs idx))" for idx
  proof (cases "kmeans_assigned dat cs idx = []")
    case True
    then show ?thesis by (simp add: kmeans_new_centroid_def)
  next
    case False
    have "\<forall>x \<in> set (kmeans_assigned dat cs idx). length x = d"
      using assms(3) by (simp add: kmeans_assigned_def)
    from pos_add_all_None[OF False this] obtain v' where
      v': "pos_add_all None (kmeans_assigned dat cs idx) = Some v'" "length v' = d"
        "\<forall>k < d. v' ! k = (\<Sum>x\<leftarrow>kmeans_assigned dat cs idx. x ! k)"
      by blast
    have "map (\<lambda>a. a / real (length (kmeans_assigned dat cs idx))) v' =
          vec_mean d (kmeans_assigned dat cs idx)"
      using v'(2,3) by (intro nth_equalityI) (simp_all add: vec_mean_def)
    with False v'(1) show ?thesis by (simp add: kmeans_new_centroid_def)
  qed
  have "map (\<lambda>(idx, c). kmeans_new_centroid cs idx c) (zip [0..<length ?acc] ?acc) =
        map (\<lambda>idx. if kmeans_assigned dat cs idx = [] then cs ! idx
                    else vec_mean d (kmeans_assigned dat cs idx)) [0..<length cs]"
    by (intro nth_equalityI) (simp_all add: new)
  then show ?thesis
    unfolding kmeans_step_def a by simp
qed

lemma vec_mean_length: "length (vec_mean d rows) = d"
  by (simp add: vec_mean_def)

text \<open>
  Claim C7. One iteration of the loop of \<^verbatim>\<open>_stop_training\<close>, on centroids and rows of
  one length, raises nothing and returns as many centroids as before, of the same
  length, so that the next iteration starts from centroids of the same kind. A cluster
  to which no row is assigned keeps its centroid; the centroid of any other cluster
  becomes the mean of the rows assigned to it. A row is assigned to the cluster whose
  centroid is at the least Euclidean distance, the first of them when several are.
\<close>

theorem kmeans_step_centroids:
  assumes "cs \<noteq> []" "\<forall>c \<in> set cs. length c = d" "\<forall>x \<in> set dat. length x = d"
  shows "\<exists>new. kmeans_step dat cs = Inr new \<and> length new = length cs \<and>
           (\<forall>c \<in> set new. length c = d) \<and>
           (\<forall>idx < length cs.
              (kmeans_assigned dat cs idx = [] \<longrightarrow> new ! idx = cs ! idx) \<and>
              (kmeans_assigned dat cs idx \<noteq> [] \<longrightarrow>
                 new ! idx = vec_mean d (kmeans_assigned dat cs idx))) \<and>
           (\<forall>x \<in> set dat. \<exists>i < length cs.
              kmeans_nearest_centroid_idx x cs = Inr i \<and>
              (\<forall>j < length cs. np_norm (map2 (\<lambda>a b. a - b) x (cs ! i)) \<le>
                               np_norm (map2 (\<lambda>a b. a - b) x (cs ! j))) \<and>
              (\<forall>j < i. np_norm (map2 (\<lambda>a b. a - b) x (cs ! i)) <
                        np_norm (map2 (\<lambda>a b. a - b) x (cs ! j))))"
proof -
  let ?new = "map (\<lambda>idx. if kmeans_assigned dat cs idx = [] then cs ! idx
                          else vec_mean d (kmeans_assigned dat cs idx)) [0..<length cs]"
  have res: "kmeans_step dat cs = Inr ?new"
    using kmeans_step_ok[OF assms] .
  have lens: "\<forall>c \<in> set ?new. length c = d"
    using assms(2) by (auto simp: vec_mean_length)
  have near: "\<exists>i < length cs.
              kmeans_nearest_centroid_idx x cs = Inr i \<and>
              (\<forall>j < length cs. np_norm (map2 (\<lambda>a b. a - b) x (cs ! i)) \<le>
                               np_norm (map2 (\<lambda>a b. a - b) x (cs ! j))) \<and>
              (\<forall>j < i. np_norm (map2 (\<lambda>a b. a - b) x (cs ! i)) <
                        np_norm (map2 (\<lambda>a b. a - b) x (cs ! j)))"
    if "x \<in> set dat" for x
  proof -
    have "\<forall>c \<in> set cs. length c = length x" using that assms(2,3) by simp
    from kmeans_nearest_props[OF assms(1) this] show ?thesis by blast
  qed
  show ?thesis
    using res lens near by (intro exI[of _ ?new]) simp
qed

lemma kmeans_example_step: "kmeans_step [[0], [2], [10]] [[0], [2]] = Inr [[0], [6]]"
  by (simp add: kmeans_step_def kmeans_nearest_centroid_idx_def kmeans_dist_def np_broadcast2_def
      np_norm_def np_argmin_def pos_add_def kmeans_new_centroid_def)

theorem kmeans_step_centroids_witness:
  "kmeans_step [[0], [2], [10]] [[0], [2]] = Inr [[0], [6]] \<and>
   kmeans_assigned [[0], [2], [10]] [[0], [2]] 1 = [[2], [10]] \<and>
   vec_mean 1 [[2], [10]] = [6]"
proof -
  have a: "[[0 :: real], [2]] \<noteq> []" by simp
  have b: "\<forall>c \<in> set [[0 :: real], [2]]. length c = 1" by simp
  have c: "\<forall>x \<in> set [[0 :: real], [2], [10]]. length x = 1" by simp
  have asg: "kmeans_assigned [[0], [2], [10]] [[0], [2]] 1 = [[2], [10]]"
    by (simp add: kmeans_assigned_def kmeans_nearest_centroid_idx_def kmeans_dist_def
        np_broadcast2_def np_norm_def np_argmin_def)
  from kmeans_step_centroids[OF a b c] obtain new where
    new: "kmeans_step [[0], [2], [10]] [[0], [2]] = Inr new"
      "kmeans_assigned [[0], [2], [10]] [[0], [2]] 1 \<noteq> [] \<longrightarrow>
         new ! 1 = vec_mean 1 (kmeans_assigned [[0], [2], [10]] [[0], [2]] 1)"
    by force
  from new(2) have "new ! 1 = vec_mean 1 [[2], [10]]" unfolding asg by simp
  moreover have "new = [[0], [6]]" using new(1) kmeans_example_step by simp
  ultimately have "vec_mean 1 [[2], [10]] = [6]" by simp
  with kmeans_example_step asg show ?thesis by simp
qed

lemma kmeans_example_eq:
  "kmeans_example =
     \<lparr>num_clusters = 2, data = DataList [0, 2, 10], tlen = 3, kmeans_centroids = NoCentroids,
      max_iter = 1, kmeans_input_dim = 1\<rparr>"
  by (simp add: kmeans_example_def kmeans_train_raw_def kmeans_init_def)

lemma kmeans_example_reshape:
  "np_reshape (tlen kmeans_example) (kmeans_input_dim kmeans_example)
     (kdata_flat (data kmeans_example)) = Inr [[0], [2], [10]]"
  by (simp add: kmeans_example_eq np_reshape_def kdata_flat_def upt_conv_Cons)

lemma kmeans_loop_never_stable:
  "kmeans_never_stable n dat (centroid_rows cs) \<Longrightarrow> kmeans_loop n dat cs s = (None, s)"
proof (induction n arbitrary: cs)
  case 0
  show ?case by simp
next
  case (Suc n)
  from Suc.prems obtain new where
    new: "kmeans_step dat (centroid_rows cs) = Inr new" "new \<noteq> centroid_rows cs"
      "kmeans_never_stable n dat new"
    by (auto split: sum.splits)
  from new(3) have "kmeans_never_stable n dat (centroid_rows (NdArray new))"
    by (simp add: centroid_rows_def)
  from Suc.IH[OF this] new(1,2) show ?case by simp
qed

text \<open>
  Claim C10, as amended. Let \<^verbatim>\<open>self._centroids\<close> be \<^verbatim>\<open>None\<close>, as \<^verbatim>\<open>__init__\<close> sets it,
  and let all \<^verbatim>\<open>max_iter\<close> iterations from the drawn centroids run without two
  consecutive centroid arrays being equal. Then \<^verbatim>\<open>_stop_training\<close> returns normally,
  having written the data array only: \<^verbatim>\<open>self._centroids\<close> is still \<^verbatim>\<open>None\<close>, and the
  centroids computed last are lost. Every later \<^verbatim>\<open>_label\<close> call on a batch of at least
  one row raises \<^verbatim>\<open>TypeError\<close>.
\<close>

theorem kmeans_unconverged_centroids_none:
  assumes "kmeans_centroids s = NoCentroids"
    and "np_reshape (tlen s) (kmeans_input_dim s) (kdata_flat (data s)) = Inr dat"
    and "num_clusters s \<le> tlen s"
    and "list_all (\<lambda>i. i < length dat) (sample (tlen s) (num_clusters s))"
    and "kmeans_never_stable (max_iter s) dat
           (map (\<lambda>i. dat ! i) (sample (tlen s) (num_clusters s)))"
  shows "kmeans_stop_training sample s = (None, s\<lparr>data := DataArray dat\<rparr>) \<and>
         kmeans_centroids (snd (kmeans_stop_training sample s)) = NoCentroids \<and>
         (\<forall>x. x \<noteq> [] \<longrightarrow> kmeans_label (snd (kmeans_stop_training sample s)) x = Inl TypeError)"
proof -
  have "kmeans_never_stable (max_iter s) dat
          (centroid_rows (NdArray (map (\<lambda>i. dat ! i) (sample (tlen s) (num_clusters s)))))"
    using assms(5) by (simp add: centroid_rows_def)
  from kmeans_loop_never_stable[OF this]
  have "kmeans_stop_training sample s = (None, s\<lparr>data := DataArray dat\<rparr>)"
    using assms(1-4) by (simp add: kmeans_stop_training_def centroids_falsy_def Let_def)
  then show ?thesis
    using assms(1) by (simp add: kmeans_label_def)
qed

lemma kmeans_example_never_stable:
  "kmeans_never_stable (max_iter kmeans_example) [[0], [2], [10]]
     (map (\<lambda>i. [[0], [2], [10]] ! i)
        (first_indices (tlen kmeans_example) (num_clusters kmeans_example)))"
proof -
  have "first_indices (tlen kmeans_example) (num_clusters kmeans_example) = [0, 1]"
    by (simp add: first_indices_def kmeans_example_eq upt_conv_Cons)
  moreover have "max_iter kmeans_example = Suc 0"
    by (simp add: kmeans_example_eq)
  ultimately show ?thesis
    using kmeans_example_step by simp
qed

theorem kmeans_unconverged_centroids_none_witness:
  "kmeans_stop_training first_indices kmeans_example =
     (None, kmeans_example\<lparr>data := DataArray [[0], [2], [10]]\<rparr>) \<and>
   kmeans_centroids (snd (kmeans_stop_training first_indices kmeans_example)) = NoCentroids \<and>
   kmeans_label (snd (kmeans_stop_training first_indices kmeans_example)) [[1]] = Inl TypeError"
proof -
  have a: "kmeans_centroids kmeans_example = NoCentroids"
    by (simp add: kmeans_example_eq)
  have c: "num_clusters kmeans_example \<le> tlen kmeans_example"
    by (simp add: kmeans_example_eq)
  have d: "list_all (\<lambda>i. i < length [[0 :: real], [2], [10]])
             (first_indices (tlen kmeans_example) (num_clusters kmeans_example))"
    by (simp add: first_indices_def kmeans_example_eq upt_conv_Cons)
  have e: "[[1 :: real]] \<noteq> []" by simp
  show ?thesis
    using kmeans_unconverged_centroids_none[where s = kmeans_example and sample = first_indices
        and dat = "[[0], [2], [10]]", OF a kmeans_example_reshape c d
        kmeans_example_never_stable] e
    by blast
qed

lemma kmeans_label_empty:
  "kmeans_label s [] = Inr []"
  by (simp add: kmeans_label_def split: centroids.split)

text \<open>
  The claim as stated fails for the batch without rows: after the same unconverged
  \<^verbatim>\<open>_stop_training\<close> the call of \<^verbatim>\<open>_label\<close> on it returns the empty list.
\<close>

theorem kmeans_label_empty_counterexample:
  "kmeans_never_stable (max_iter kmeans_example) [[0], [2], [10]] [[0], [2]] \<and>
   fst (kmeans_stop_training first_indices kmeans_example) = None \<and>
   kmeans_centroids (snd (kmeans_stop_training first_indices kmeans_example)) = NoCentroids \<and>
   kmeans_label (snd (kmeans_stop_training first_indices kmeans_example)) [] = Inr []"
proof -
  have idx: "first_indices (tlen kmeans_example) (num_clusters kmeans_example) = [0, 1]"
    by (simp add: first_indices_def kmeans_example_eq upt_conv_Cons)
  have ns: "kmeans_never_stable (max_iter kmeans_example) [[0], [2], [10]] [[0], [2]]"
    using kmeans_example_never_stable unfolding idx by simp
  have "kmeans_never_stable (max_iter kmeans_example) [[0], [2], [10]]
          (centroid_rows (NdArray [[0], [2]]))"
    using ns by (simp add: centroid_rows_def)
  from kmeans_loop_never_stable[OF this]
  have "kmeans_stop_training first_indices kmeans_example =
          (None, kmeans_example\<lparr>data := DataArray [[0], [2], [10]]\<rparr>)"
    using kmeans_example_reshape idx
    by (simp add: kmeans_stop_training_def centroids_falsy_def Let_def)
       (simp add: kmeans_example_eq)
  then show ?thesis
    using ns by (simp add: kmeans_label_def kmeans_example_eq)
qed

section \<open>Properties of GaussianClassifierNode\<close>

lemma gaussian_trained_eq:
  "gaussian_trained =
     (gaussian_init 1)\<lparr>cov_objs := Some [(0, \<lparr>acc_outer = [[4]], acc_sum = [2], acc_count = 2\<rparr>)]\<rparr>"
  by (simp add: gaussian_trained_def gaussian_train_raw_def gaussian_update_covs_def
      gaussian_init_def np_compress_def example_ops_def acc_add_row_def)

lemma gaussian_fitted_eq:
  "gaussian_stop_training example_ops gaussian_trained = (None, gaussian_fitted)"
  by (simp add: gaussian_trained_eq gaussian_stop_training_def gaussian_init_def example_ops_def
      acc_fix_def store_acc_def np_sqrt_def cofactor_inv_def del_col_def gaussian_fitted_def)

lemma zip_map_upt:
  "length xs = d \<Longrightarrow> zip (map f [0..<d]) xs = map (\<lambda>j. (f j, xs ! j)) [0..<d]"
  by (intro nth_equalityI) simp_all

lemma gaussian_prob_row_ok:
  assumes "length row = d" "length mean = d" "length invS = d"
    and "list_all (\<lambda>r. length r = d) invS"
  shows "gaussian_prob_row n sqrt_detS invS mean row =
     Inr (map_option
            (\<lambda>c. c * exp (- (1 / 2) *
               (\<Sum>j\<leftarrow>[0..<d]. (\<Sum>k\<leftarrow>[0..<d]. (row ! k - mean ! k) * invS ! k ! j) *
                                 (row ! j - mean ! j))))
            (np_divide (Some ((2 * pi) powr - (real n / 2))) sqrt_detS))"
proof -
  let ?x_mn = "map2 (\<lambda>a b. a - b) row mean"
  have b1: "np_broadcast2 (\<lambda>a b. a - b) row mean = Inr ?x_mn"
    using assms by (simp add: np_broadcast2_def)
  have len: "length ?x_mn = d" using assms by simp
  have nth: "?x_mn ! k = row ! k - mean ! k" if "k < d" for k
    using that assms by simp
  let ?c = "case invS of [] \<Rightarrow> 0 | r # _ \<Rightarrow> length r"
  have c: "?c = d"
    using assms by (cases invS) auto
  let ?y = "map (\<lambda>j. \<Sum>k\<leftarrow>[0..<d]. ?x_mn ! k * invS ! k ! j) [0..<d]"
  have vm: "np_vec_mat ?x_mn invS = Inr ?y"
    using assms len c by (simp add: np_vec_mat_def Let_def)
  have b2: "np_broadcast2 (\<lambda>a b. a * b) ?y ?x_mn = Inr (map2 (\<lambda>a b. a * b) ?y ?x_mn)"
    using len by (simp add: np_broadcast2_def)
  have inner: "(\<Sum>k\<leftarrow>[0..<d]. ?x_mn ! k * invS ! k ! j) =
               (\<Sum>k\<leftarrow>[0..<d]. (row ! k - mean ! k) * invS ! k ! j)" for j
    by (intro arg_cong[where f = sum_list] map_cong) (simp_all add: nth)
  have "sum_list (map2 (\<lambda>a b. a * b) ?y ?x_mn) =
        (\<Sum>j\<leftarrow>[0..<d]. (\<Sum>k\<leftarrow>[0..<d]. ?x_mn ! k * invS ! k ! j) * ?x_mn ! j)"
    using zip_map_upt[OF len, of "\<lambda>j. \<Sum>k\<leftarrow>[0..<d]. ?x_mn ! k * invS ! k ! j"]
    by (simp add: comp_def)
  also have "\<dots> = (\<Sum>j\<leftarrow>[0..<d]. (\<Sum>k\<leftarrow>[0..<d]. (row ! k - mean ! k) * invS ! k ! j) *
                                 (row ! j - mean ! j))"
    by (intro arg_cong[where f = sum_list] map_cong) (simp_all add: nth inner)
  finally have se: "sum_list (map2 (\<lambda>a b. a * b) ?y ?x_mn) =
     (\<Sum>j\<leftarrow>[0..<d]. (\<Sum>k\<leftarrow>[0..<d]. (row ! k - mean ! k) * invS ! k ! j) *
                                 (row ! j - mean ! j))" .
  show ?thesis
    unfolding gaussian_prob_row_def b1 sum.case vm b2 Let_def se ..
qed

lemma gaussian_column_ok:
  assumes attrs: "inv_covs s = Some ic" "means s = Some mn" "gaussian_p s = Some ps"
      "sqrt_def_covs s = Some sq"
    and lens: "i < length ic" "i < length mn" "i < length ps" "i < length sq"
    and shapes: "length (mn ! i) = gaussian_input_dim s" "length (ic ! i) = gaussian_input_dim s"
      "list_all (\<lambda>r. length r = gaussian_input_dim s) (ic ! i)"
    and rows: "\<forall>row \<in> set x. length row = gaussian_input_dim s"
  shows "gaussian_column s x i =
     Inr (map (\<lambda>row. map_option (\<lambda>g. g * ps ! i)
            (map_option
               (\<lambda>c. c * exp (- (1 / 2) *
                  (\<Sum>j\<leftarrow>[0..<gaussian_input_dim s].
                     (\<Sum>k\<leftarrow>[0..<gaussian_input_dim s]. (row ! k - mn ! i ! k) * ic ! i ! k ! j) *
                     (row ! j - mn ! i ! j))))
               (np_divide (Some ((2 * pi) powr - (real (gaussian_input_dim s) / 2))) (sq ! i)))) x)"
proof -
  have "\<forall>row \<in> set x.
      gaussian_prob_row (gaussian_input_dim s) (sq ! i) (ic ! i) (mn ! i) row =
      Inr (map_option
               (\<lambda>c. c * exp (- (1 / 2) *
                  (\<Sum>j\<leftarrow>[0..<gaussian_input_dim s].
                     (\<Sum>k\<leftarrow>[0..<gaussian_input_dim s]. (row ! k - mn ! i ! k) * ic ! i ! k ! j) *
                     (row ! j - mn ! i ! j))))
               (np_divide (Some ((2 * pi) powr - (real (gaussian_input_dim s) / 2))) (sq ! i)))"
  proof
    fix row assume "row \<in> set x"
    then have "length row = gaussian_input_dim s" using rows by simp
    then show "gaussian_prob_row (gaussian_input_dim s) (sq ! i) (ic ! i) (mn ! i) row =
      Inr (map_option
               (\<lambda>c. c * exp (- (1 / 2) *
                  (\<Sum>j\<leftarrow>[0..<gaussian_input_dim s].
                     (\<Sum>k\<leftarrow>[0..<gaussian_input_dim s]. (row ! k - mn ! i ! k) * ic ! i ! k ! j) *
                     (row ! j - mn ! i ! j))))
               (np_divide (Some ((2 * pi) powr - (real (gaussian_input_dim s) / 2))) (sq ! i)))"
      using shapes by (rule gaussian_prob_row_ok)
  qed
  from mapE_map[OF this] show ?thesis
    using attrs lens by (simp add: gaussian_column_def gaussian_prob_def)
qed

lemma gaussian_column_entries:
  assumes attrs: "inv_covs s = Some ic" "means s = Some mn" "gaussian_p s = Some ps"
      "sqrt_def_covs s = Some sq"
    and lens: "i < length ic" "i < length mn" "i < length ps" "i < length sq"
    and shapes: "length (mn ! i) = gaussian_input_dim s" "length (ic ! i) = gaussian_input_dim s"
      "list_all (\<lambda>r. length r = gaussian_input_dim s) (ic ! i)"
    and rows: "\<forall>row \<in> set x. length row = gaussian_input_dim s"
  shows "gaussian_column s x i = Inr (map (\<lambda>row. gaussian_tmp_entry s row i) x)"
proof -
  have "gaussian_tmp_entry s row i =
      map_option (\<lambda>g. g * ps ! i)
            (map_option
               (\<lambda>c. c * exp (- (1 / 2) *
                  (\<Sum>j\<leftarrow>[0..<gaussian_input_dim s].
                     (\<Sum>k\<leftarrow>[0..<gaussian_input_dim s]. (row ! k - mn ! i ! k) * ic ! i ! k ! j) *
                     (row ! j - mn ! i ! j))))
               (np_divide (Some ((2 * pi) powr - (real (gaussian_input_dim s) / 2))) (sq ! i)))"
    if "row \<in> set x" for row
  proof -
    have "\<forall>r \<in> set [row]. length r = gaussian_input_dim s" using that rows by simp
    from gaussian_column_ok[OF attrs lens shapes this] show ?thesis
      by (simp add: gaussian_tmp_entry_def)
  qed
  then show ?thesis
    unfolding gaussian_column_ok[OF attrs lens shapes rows] by simp
qed





lemma gaussian_class_probabilities_rows:
  assumes fin: "gaussian_finalized s"
    and rows: "\<forall>row \<in> set x. length row = gaussian_input_dim s"
  shows "gaussian_class_probabilities s x =
           Inr (map (\<lambda>row. normalize_row (gaussian_tmp_row s row)) x)"
proof -
  from fin obtain lbls ic mn ps sq where
    attrs: "gaussian_labels s = Some lbls" "inv_covs s = Some ic" "means s = Some mn"
      "gaussian_p s = Some ps" "sqrt_def_covs s = Some sq"
    and lens: "length ic = length lbls" "length mn = length lbls" "length ps = length lbls"
      "length sq = length lbls"
    and sh1: "list_all (\<lambda>m. length m = gaussian_input_dim s) mn"
    and sh2: "list_all (\<lambda>m. length m = gaussian_input_dim s \<and>
                         list_all (\<lambda>r. length r = gaussian_input_dim s) m) ic"
    by (auto simp: gaussian_finalized_def split: option.splits)
  have col: "gaussian_column s x i = Inr (map (\<lambda>row. gaussian_tmp_entry s row i) x)"
    if "i < length lbls" for i
    using that lens sh1 sh2
    by (intro gaussian_column_entries[OF attrs(2-5) _ _ _ _ _ _ _ rows])
       (simp_all add: list_all_length)
  have "mapE (gaussian_column s x) [0..<length lbls] =
        Inr (map (\<lambda>i. map (\<lambda>row. gaussian_tmp_entry s row i) x) [0..<length lbls])"
    by (intro mapE_map) (simp add: col)
  then have "gaussian_class_probabilities s x =
      Inr (map (\<lambda>r. normalize_row
             (map (\<lambda>col. col ! r)
                (map (\<lambda>i. map (\<lambda>row. gaussian_tmp_entry s row i) x) [0..<length lbls])))
             [0..<length x])"
    by (simp add: gaussian_class_probabilities_def attrs)
  also have "map (\<lambda>r. normalize_row
             (map (\<lambda>col. col ! r)
                (map (\<lambda>i. map (\<lambda>row. gaussian_tmp_entry s row i) x) [0..<length lbls])))
             [0..<length x] = map (\<lambda>row. normalize_row (gaussian_tmp_row s row)) x"
    by (intro nth_equalityI) (simp_all add: gaussian_tmp_row_def attrs comp_def)
  finally show ?thesis .
qed




lemma gaussian_two_fitted_row:
  "gaussian_tmp_row gaussian_two_fitted [1] =
     [Some ((2 * pi) powr - (1 / 2) * (1 / 2)),
      Some ((2 * pi) powr - (1 / 2) * exp (- 8) * (1 / 2))]"
  by (simp add: gaussian_tmp_row_def gaussian_tmp_entry_def gaussian_column_def gaussian_prob_def
      gaussian_prob_row_def gaussian_two_fitted_def np_broadcast2_def np_vec_mat_def
      np_divide_def upt_conv_Cons)


text \<open>
  The two-class example: the query row \<open>1\<close> is the mean of class \<open>0\<close> and four standard
  deviations from the mean of class \<open>1\<close>; the posterior is
  \<open>(1 / (1 + e\<^bsup>-8\<^esup>), e\<^bsup>-8\<^esup> / (1 + e\<^bsup>-8\<^esup>))\<close>.
\<close>

lemma gaussian_two_fitted_probs:
  "gaussian_class_probabilities gaussian_two_fitted [[1]] =
     Inr [[Some (1 / (1 + exp (- 8))), Some (exp (- 8) / (1 + exp (- 8)))]]"
proof -
  define k :: real where "k = (2 * pi) powr - (1 / 2) * (1 / 2)"
  define E :: real where "E = 1 + exp (- 8)"
  have k: "k > 0" by (simp add: k_def)
  have E: "E > 0" by (simp add: E_def add_pos_pos)
  have r: "gaussian_tmp_row gaussian_two_fitted [1] = [Some k, Some (k * exp (- 8))]"
    by (simp add: gaussian_two_fitted_row k_def)
  have s: "np_sum [Some k, Some (k * exp (- 8))] = Some (k * E)"
    by (simp add: E_def algebra_simps)
  have nz: "k * E \<noteq> 0" using k E by simp
  have a: "k / (k * E) = 1 / E" using k by simp
  have b: "k * exp (- 8) / (k * E) = exp (- 8) / E" using k by simp
  have row: "normalize_row (gaussian_tmp_row gaussian_two_fitted [1]) =
     [Some (1 / E), Some (exp (- 8) / E)]"
    unfolding normalize_row_def r list.map s np_divide_def using nz a b
    by (simp only: prod.case option.case if_False)
  have fin: "gaussian_finalized gaussian_two_fitted"
    by (simp add: gaussian_finalized_def gaussian_two_fitted_def)
  have rows: "\<forall>row \<in> set [[1 :: real]]. length row = gaussian_input_dim gaussian_two_fitted"
    by (simp add: gaussian_two_fitted_def)
  show ?thesis
    using gaussian_class_probabilities_rows[OF fin rows] row by (simp add: E_def)
qed






section \<open>Validation of the labels before training\<close>

text \<open>
  Claim C5. For each of the three classifiers that take labels, a sequence of labels
  whose length differs from the number of rows makes \<^verbatim>\<open>_check_train_args\<close> raise
  \<^verbatim>\<open>TrainingException\<close>, whatever the labels and rows are; the check is a function of
  its arguments and writes nothing. The training call, which runs the check before the
  training step, then raises \<^verbatim>\<open>TrainingException\<close> and returns the state it was given:
  weights and bias, the count dictionaries, the covariance accumulators are as before.
\<close>

theorem train_rejects_label_count:
  "(length lp \<noteq> length xp \<longrightarrow>
      perceptron_check_train_args xp (Many lp) = Some TrainingException \<and>
      perceptron_train sp xp (Many lp) = (Some TrainingException, sp)) \<and>
   (length lm \<noteq> length xm \<longrightarrow>
      markov_check_train_args xm (Many lm) = Some TrainingException \<and>
      markov_train n sm xm (Many lm) = (Some TrainingException, sm)) \<and>
   (length lg \<noteq> length xg \<longrightarrow>
      gaussian_check_train_args xg (Many lg) = Some TrainingException \<and>
      gaussian_train ops sg xg (Many lg) = (Some TrainingException, sg))"
  by (simp add: perceptron_check_train_args_def markov_check_train_args_def
      gaussian_check_train_args_def perceptron_train_def markov_train_def gaussian_train_def
      node_train_def)

theorem train_rejects_label_count_witness:
  "perceptron_train perceptron_trained [[1], [2]] (Many [1]) =
     (Some TrainingException, perceptron_trained) \<and>
   markov_train 1 (markov_after markov_example) [[0], [1]] (Many [''a'']) =
     (Some TrainingException, markov_after markov_example) \<and>
   gaussian_train example_ops gaussian_trained [[0], [2]] (Many [0, 0, 1]) =
     (Some TrainingException, gaussian_trained)"
proof -
  have a: "length [1 :: real] \<noteq> length [[1 :: real], [2]]" by simp
  have b: "length [''a''] \<noteq> length [[0 :: int], [1]]" by simp
  have c: "length [0 :: nat, 0, 1] \<noteq> length [[0 :: real], [2]]" by simp
  show ?thesis
    using a b c
      train_rejects_label_count[of "[1]" "[[1], [2]]" perceptron_trained
        "[''a'']" "[[0], [1]]" 1 "markov_after markov_example"
        "[0, 0, 1]" "[[0], [2]]" example_ops gaussian_trained]
    by blast
qed

section \<open>Calling the finalize step twice\<close>

lemma hopfield_stop_twice:
  assumes "hopfield_stop_training s = (None, s')"
  shows "hopfield_stop_training s' = (None, s')"
proof (cases "weight_matrix s")
  case Zero
  then show ?thesis
    using assms by (auto simp: hopfield_stop_training_def split: if_splits)
next
  case (Matrix w)
  then obtain w' where z: "zero_diagonal [0..<hopfield_input_dim s] w = (None, w')"
    and s': "s' = s\<lparr>weight_matrix := Matrix w'\<rparr>"
    using assms by (auto simp: hopfield_stop_training_def split: prod.splits)
  from zero_diagonal_idem[OF z] show ?thesis
    by (simp add: hopfield_stop_training_def s')
qed

lemma gaussian_stop_twice:
  assumes "gaussian_stop_training ops s = (None, s')"
  shows "gaussian_stop_training ops s' = (Some AttributeError, s')"
proof -
  from assms have "cov_objs s' = None"
    by (auto simp: gaussian_stop_training_def Let_def split: option.splits prod.splits if_splits)
  then show ?thesis by (simp add: gaussian_stop_training_def)
qed

lemma hopfield_trained_stop:
  "fst (hopfield_stop_training hopfield_trained) = None"
  by (simp add: hopfield_trained_def hopfield_init_def hopfield_train_one_def bool_to_sign_def
      wmatrix_iadd_def hopfield_stop_training_def upt_conv_Cons split: prod.splits)

text \<open>
  Claim C9, as amended. For the Hopfield network a second \<^verbatim>\<open>_stop_training\<close> after a
  first one that returned normally returns normally too and leaves the state as the
  first call left it, so every later retrieval is the same. For the Gaussian
  classifier the first \<^verbatim>\<open>_stop_training\<close> deletes \<^verbatim>\<open>self.cov_objs\<close>, which the first
  statement of the method reads: a second call raises \<^verbatim>\<open>AttributeError\<close>. It does so
  before writing anything, so the finalized state, and with it every later result of
  \<^verbatim>\<open>class_probabilities\<close>, is the one of the first call.
\<close>

theorem finalize_twice:
  "(hopfield_stop_training sh = (None, sh') \<longrightarrow>
      hopfield_stop_training sh' = (None, sh') \<and>
      hopfield_label_one shuffle (snd (hopfield_stop_training sh')) pattern threshold =
        hopfield_label_one shuffle sh' pattern threshold) \<and>
   (gaussian_stop_training ops sg = (None, sg') \<longrightarrow>
      gaussian_stop_training ops sg' = (Some AttributeError, sg') \<and>
      gaussian_class_probabilities (snd (gaussian_stop_training ops sg')) x =
        gaussian_class_probabilities sg' x)"
  by (simp add: hopfield_stop_twice gaussian_stop_twice)

theorem finalize_twice_witness:
  "hopfield_stop_training (snd (hopfield_stop_training hopfield_trained)) =
     (None, snd (hopfield_stop_training hopfield_trained)) \<and>
   gaussian_stop_training example_ops gaussian_fitted = (Some AttributeError, gaussian_fitted)"
proof -
  have h: "hopfield_stop_training hopfield_trained =
             (None, snd (hopfield_stop_training hopfield_trained))"
    using hopfield_trained_stop by (simp add: prod_eq_iff)
  show ?thesis
    using finalize_twice[where sh = hopfield_trained
        and sh' = "snd (hopfield_stop_training hopfield_trained)"
        and ops = example_ops and sg = gaussian_trained and sg' = gaussian_fitted]
      h gaussian_fitted_eq
    by blast
qed

text \<open>
  The claim as stated fails for the Gaussian classifier: after a training call the
  first \<^verbatim>\<open>_stop_training\<close> returns normally and the second one raises.
\<close>

theorem finalize_twice_counterexample:
  "gaussian_stop_training example_ops gaussian_trained = (None, gaussian_fitted) \<and>
   gaussian_stop_training example_ops gaussian_fitted = (Some AttributeError, gaussian_fitted)"
  using gaussian_fitted_eq gaussian_stop_twice[OF gaussian_fitted_eq] by simp

text \<open>
  For K-means the second call meets \<^verbatim>\<open>not self._centroids\<close> on the array of centroids
  that the first call stored, which raises \<^verbatim>\<open>ValueError\<close> for more than one entry.
\<close>

lemma kmeans_settling_eq:
  "kmeans_example_settling =
     \<lparr>num_clusters = 2, data = DataList [0, 2, 10], tlen = 3, kmeans_centroids = NoCentroids,
      max_iter = 10, kmeans_input_dim = 1\<rparr>"
  by (simp add: kmeans_example_settling_def kmeans_train_raw_def kmeans_init_def)

lemma kmeans_settling_steps:
  "kmeans_step [[0], [2], [10]] [[0], [6]] = Inr [[1], [10]]"
  "kmeans_step [[0], [2], [10]] [[1], [10]] = Inr [[1], [10]]"
  by (simp_all add: kmeans_step_def kmeans_nearest_centroid_idx_def kmeans_dist_def
      np_broadcast2_def np_norm_def np_argmin_def pos_add_def kmeans_new_centroid_def)

lemma kmeans_settling_first:
  "kmeans_stop_training first_indices kmeans_example_settling =
     (None, kmeans_example_settling\<lparr>data := DataArray [[0], [2], [10]],
                                    kmeans_centroids := NdArray [[1], [10]]\<rparr>)"
proof -
  have l: "kmeans_loop 10 [[0], [2], [10]] (NdArray [[0], [2]]) s =
           (None, s\<lparr>kmeans_centroids := NdArray [[1], [10]]\<rparr>)" for s
  proof -
    have ten: "(10 :: nat) = Suc (Suc (Suc 7))" by simp
    have s1: "kmeans_loop (Suc n) [[0], [2], [10]] (NdArray [[0], [2]]) s =
              kmeans_loop n [[0], [2], [10]] (NdArray [[0], [6]]) s" for n
      by (simp add: kmeans_example_step centroid_rows_def)
    have s2: "kmeans_loop (Suc n) [[0], [2], [10]] (NdArray [[0], [6]]) s =
              kmeans_loop n [[0], [2], [10]] (NdArray [[1], [10]]) s" for n
      by (simp add: kmeans_settling_steps centroid_rows_def)
    have s3: "kmeans_loop (Suc n) [[0], [2], [10]] (NdArray [[1], [10]]) s =
              (None, s\<lparr>kmeans_centroids := NdArray [[1], [10]]\<rparr>)" for n
      by (simp add: kmeans_settling_steps centroid_rows_def)
    show ?thesis
      by (simp only: ten s1 s2 s3)
  qed
  show ?thesis
    by (simp add: kmeans_stop_training_def kmeans_settling_eq kdata_flat_def np_reshape_def
        centroids_falsy_def first_indices_def upt_conv_Cons l)
qed

lemma kmeans_second_finalize_raises:
  "fst (kmeans_stop_training first_indices
          (snd (kmeans_stop_training first_indices kmeans_example_settling))) = Some ValueError"
proof -
  show ?thesis
    unfolding kmeans_settling_first
    by (simp add: kmeans_stop_training_def kmeans_settling_eq kdata_flat_def np_reshape_def
        upt_conv_Cons centroids_falsy_def)
qed


end
